theory Spec2Isabelle
  imports Main
begin

section \<open>Errors\<close>

text \<open>
  The exceptions the modelled functions raise.  An integrity error carries a message and
  the optional \<open>id\<close> of the conflicting row (\<open>SpineIntegrityError(msg, id=None)\<close>).  The
  f-string messages of the source are kept as one constructor per \<open>raise\<close> site, holding the
  values that the source formats into the text.  \<open>KeyError\<close> is Python's own exception for
  a missing dictionary key, \<open>TypeError\<close> its exception for iterating a value that is not
  iterable, \<open>AttributeError\<close> its exception for an attribute that an object does not have,
  \<open>MultipleResultsFound\<close> what \<open>Query.scalar()\<close> and \<open>Query.one_or_none()\<close> raise on more
  than one row, \<open>StatementError\<close> what the execution of a statement raises when an item
  lacks the value of a bound parameter, \<open>DBAPIError\<close> what the store raises when it refuses
  a statement.
  \<open>SpineDBAPIError\<close> keeps one constructor per \<open>raise\<close> site in the same way.
\<close>

datatype integrity_msg =
    Missing_object_class_name
  | Empty_object_class_name
  | Object_class_wrong_type_id string
  | Object_class_duplicate string
  | Missing_relationship_name
  | Empty_relationship_name
  | Missing_relationship_class_id string
  | Relationship_wrong_type_id string
  | Relationship_duplicate_name string
  | No_object_class_id_list string
  | No_object_id_list string
  | Invalid_objects string
  | Incorrect_objects "string list" string
  | Relationship_duplicate_objects "string list" string

datatype api_msg =
    Scenario_not_found string
  | Scenario_id_not_found int
  | Alternatives_not_found "string list"
  | Alternative_ids_not_found "int list"
  | Nothing_to_commit
  | Nothing_to_rollback
  | Unable_to_get_next_id
  | DBAPIError_while_inserting_object_classes
  | DBAPIError_while_updating string

datatype error =
    SpineIntegrityError integrity_msg "int option"
  | KeyError
  | TypeError
  | AttributeError
  | MultipleResultsFound
  | StatementError
  | DBAPIError
  | SpineDBAPIError api_msg
  | SpineTableNotFoundError "string list"

fun is_integrity_error :: "error + 'a \<Rightarrow> bool" where
  "is_integrity_error (Inl (SpineIntegrityError m i)) = True"
| "is_integrity_error _ = False"

section \<open>Integrity checker: \<open>check_functions.py\<close>\<close>

subsection \<open>\<open>check_object_class\<close>\<close>

text \<open>
  An item is a loosely typed dictionary; the fields the check reads are kept as optional
  fields, \<open>None\<close> meaning that the key is absent.  \<open>current_items\<close> maps names to ids.
\<close>

record object_class_item =
  oc_name :: "string option"
  oc_type_id :: "int option"

definition check_object_class ::
  "object_class_item \<Rightarrow> (string \<rightharpoonup> int) \<Rightarrow> int \<Rightarrow> error + unit" where
  "check_object_class item current_items object_class_type =
     (case oc_name item of
        None \<Rightarrow> Inl (SpineIntegrityError Missing_object_class_name None)
      | Some name \<Rightarrow>
          if name = [] then Inl (SpineIntegrityError Empty_object_class_name None)
          else if oc_type_id item \<noteq> None \<and> the (oc_type_id item) \<noteq> object_class_type then
            (case current_items name of
               None \<Rightarrow> Inl KeyError
             | Some i \<Rightarrow> Inl (SpineIntegrityError (Object_class_wrong_type_id name) (Some i)))
          else
            (case current_items name of
               Some i \<Rightarrow> Inl (SpineIntegrityError (Object_class_duplicate name) (Some i))
             | None \<Rightarrow> Inr ()))"

subsection \<open>\<open>check_wide_relationship\<close>\<close>

record wide_relationship_item =
  wr_name :: "string option"
  wr_class_id :: "int option"
  wr_type_id :: "int option"
  wr_object_id_list :: "int list option"

text \<open>
  The rows of the lookups \<open>relationship_classes\<close> and \<open>objects\<close>, both keyed by id.
\<close>

record relationship_class_row =
  rc_object_class_id_list :: "int list"
  rc_name :: string

record object_row =
  ob_class_id :: int
  ob_name :: string

text \<open>Python's \<open>str\<close> on an integer and \<open>",".join\<close>.\<close>

fun str_nat :: "nat \<Rightarrow> string" where
  "str_nat n =
     (if n < 10 then [char_of (48 + n)]
      else str_nat (n div 10) @ [char_of (48 + n mod 10)])"

definition str_int :: "int \<Rightarrow> string" where
  "str_int i = (if i < 0 then CHR ''-'' # str_nat (nat (- i)) else str_nat (nat i))"

fun join_comma :: "string list \<Rightarrow> string" where
  "join_comma [] = []"
| "join_comma [s] = s"
| "join_comma (s # t # ss) = s @ CHR '','' # join_comma (t # ss)"

text \<open>
  \<open>[objects[id][field] for id in object_id_list]\<close>: the comprehension raises \<open>KeyError\<close>
  at the first id that \<open>objects\<close> does not hold, which is \<open>None\<close> here.
\<close>

fun lookup_all :: "('k \<rightharpoonup> 'v) \<Rightarrow> 'k list \<Rightarrow> 'v list option" where
  "lookup_all m [] = Some []"
| "lookup_all m (k # ks) =
     (case m k of
        None \<Rightarrow> None
      | Some v \<Rightarrow> (case lookup_all m ks of None \<Rightarrow> None | Some vs \<Rightarrow> Some (v # vs)))"

definition check_wide_relationship ::
  "wide_relationship_item \<Rightarrow> (int \<times> string \<rightharpoonup> int) \<Rightarrow> (int \<times> string \<rightharpoonup> int) \<Rightarrow>
   (int \<rightharpoonup> relationship_class_row) \<Rightarrow> (int \<rightharpoonup> object_row) \<Rightarrow> int \<Rightarrow> error + unit" where
  "check_wide_relationship wide_item current_items_by_name current_items_by_obj_lst
     relationship_classes objects relationship_entity_type =
     (case wr_name wide_item of
        None \<Rightarrow> Inl (SpineIntegrityError Missing_relationship_name None)
      | Some name \<Rightarrow>
     if name = [] then Inl (SpineIntegrityError Empty_relationship_name None)
     else
     (case wr_class_id wide_item of
        None \<Rightarrow> Inl (SpineIntegrityError (Missing_relationship_class_id name) None)
      | Some class_id \<Rightarrow>
     if wr_type_id wide_item \<noteq> None \<and> the (wr_type_id wide_item) \<noteq> relationship_entity_type then
       (case current_items_by_name (class_id, name) of
          None \<Rightarrow> Inl KeyError
        | Some i \<Rightarrow> Inl (SpineIntegrityError (Relationship_wrong_type_id name) (Some i)))
     else
     (case current_items_by_name (class_id, name) of
        Some i \<Rightarrow> Inl (SpineIntegrityError (Relationship_duplicate_name name) (Some i))
      | None \<Rightarrow>
     (case relationship_classes class_id of
        None \<Rightarrow> Inl (SpineIntegrityError (No_object_class_id_list name) None)
      | Some rel_class \<Rightarrow>
     (case wr_object_id_list wide_item of
        None \<Rightarrow> Inl (SpineIntegrityError (No_object_id_list name) None)
      | Some object_id_list \<Rightarrow>
     (case lookup_all objects object_id_list of
        None \<Rightarrow> Inl (SpineIntegrityError (Invalid_objects name) None)
      | Some object_rows \<Rightarrow>
     if map ob_class_id object_rows \<noteq> rc_object_class_id_list rel_class then
       Inl (SpineIntegrityError (Incorrect_objects (map ob_name object_rows) (rc_name rel_class)) None)
     else
     (case current_items_by_obj_lst (class_id, join_comma (map str_int object_id_list)) of
        Some i \<Rightarrow>
          Inl (SpineIntegrityError
                 (Relationship_duplicate_objects (map ob_name object_rows) (rc_name rel_class)) (Some i))
      | None \<Rightarrow> Inr ())))))))"

section \<open>Mapping construction: \<open>db_mapping_base.py\<close>\<close>

subsection \<open>\<open>_create_mapping\<close>\<close>




subsection \<open>\<open>in_\<close>\<close>

text \<open>
  The list handed to \<open>in_\<close> may hold the sentinel \<open>Anyone\<close> of \<open>helpers.py\<close> besides
  values.  The result is a predicate on the rows of the query: \<open>true()\<close>, \<open>false()\<close>, or
  membership of the column's value among the ids that the function has copied into the
  temporary table \<open>ids_for_in\<close> under a fresh clause id, which keeps the ids of one call
  apart from those of every other call.

  The column \<open>id_for_in\<close> of that table is declared \<open>Integer\<close> (\<open>_create_ids_for_in\<close>),
  whatever the type of the column of the query.  What such a column keeps for a value,
  and so the value that the store compares with the column of the query, is the choice
  of the store and not of the repository: it is the argument \<open>kept\<close>.  An \<open>int\<close> is kept as
  it is, \<open>Integer_value\<close>.  A text is kept as the store decides: SQLite keeps a number
  for a text that reads as one, so that \<open>1.0\<close>, \<open>01\<close> and \<open>1\<close> are kept as the integer 1 and
  are one value in the comparison, and keeps any other text as it is.  A real is given
  by its mantissa and binary exponent.

  The name \<open>in_\<close> is not an identifier here, so the function is \<open>in_ids\<close>.
\<close>

datatype sql_value = Integer_value int | Real_value int int | Text_value string

datatype 'a in_item = Anyone | Item 'a

definition in_ids :: "('a \<Rightarrow> sql_value) \<Rightarrow> ('r \<Rightarrow> 'a) \<Rightarrow> 'a in_item list \<Rightarrow> 'r \<Rightarrow> bool" where
  "in_ids kept column ids =
     (if Anyone \<in> set ids then (\<lambda>r. True)
      else if ids = [] then (\<lambda>r. False)
      else (\<lambda>r. \<exists>i \<in> set ids. case i of Anyone \<Rightarrow> False
                                    | Item x \<Rightarrow> kept (column r) = kept x))"

section \<open>Scenario and alternative filters: \<open>alternative_value_filter.py\<close>\<close>

record alternative_row =
  alt_id :: int
  alt_name :: string

record scenario_row =
  scen_id :: int
  scen_name :: string

record scenario_alternative_row =
  sa_scenario_id :: int
  sa_alternative_id :: int
  sa_rank :: int

record parameter_value_row =
  pv_id :: int
  pv_parameter_definition_id :: int
  pv_entity_id :: int
  pv_alternative_id :: int
  pv_value :: string

text \<open>
  The part of a database mapping that the filters read: the rows of its subqueries, and
  what the store behind the mapping keeps for a text in the column \<open>id_for_in\<close>.
  \<open>parameter_value_sq\<close> is whatever the mapping's current maker yields, so for a staged
  session it is the merged view.
\<close>

record db_map =
  alternative_sq :: "alternative_row list"
  scenario_sq :: "scenario_row list"
  scenario_alternative_sq :: "scenario_alternative_row list"
  parameter_value_sq :: "parameter_value_row list"
  id_for_in :: "string \<Rightarrow> sql_value"

text \<open>A scenario or an alternative is named by a \<open>str\<close> or by an \<open>int\<close> id.\<close>

datatype name_or_id = Name string | Id int

text \<open>\<open>Query.scalar()\<close>: the first column of the only row, \<open>None\<close> without rows.\<close>

fun scalar :: "'a list \<Rightarrow> error + 'a option" where
  "scalar [] = Inr None"
| "scalar [x] = Inr (Some x)"
| "scalar (x # y # zs) = Inl MultipleResultsFound"

definition scenario_id :: "db_map \<Rightarrow> name_or_id \<Rightarrow> error + int" where
  "scenario_id db scenario =
     (case scenario of
        Name n \<Rightarrow>
          (case scalar (map scen_id (filter (\<lambda>r. scen_name r = n) (scenario_sq db))) of
             Inl e \<Rightarrow> Inl e
           | Inr None \<Rightarrow> Inl (SpineDBAPIError (Scenario_not_found n))
           | Inr (Some i) \<Rightarrow> Inr i)
      | Id i \<Rightarrow>
          (case scalar (map scen_id (filter (\<lambda>r. scen_id r = i) (scenario_sq db))) of
             Inl e \<Rightarrow> Inl e
           | Inr None \<Rightarrow> Inl (SpineDBAPIError (Scenario_id_not_found i))
           | Inr (Some id_in_db) \<Rightarrow> Inr i))"

record ScenarioFilterState =
  sfs_original_parameter_value_sq :: "parameter_value_row list"
  sfs_scenario :: int

definition ScenarioFilterState_init :: "db_map \<Rightarrow> name_or_id \<Rightarrow> error + ScenarioFilterState" where
  "ScenarioFilterState_init db scenario =
     (case scenario_id db scenario of
        Inl e \<Rightarrow> Inl e
      | Inr i \<Rightarrow> Inr \<lparr>sfs_original_parameter_value_sq = parameter_value_sq db, sfs_scenario = i\<rparr>)"

fun names_of :: "name_or_id list \<Rightarrow> string list" where
  "names_of [] = []"
| "names_of (Name n # xs) = n # names_of xs"
| "names_of (Id i # xs) = names_of xs"

fun ids_of :: "name_or_id list \<Rightarrow> int list" where
  "ids_of [] = []"
| "ids_of (Name n # xs) = ids_of xs"
| "ids_of (Id i # xs) = i # ids_of xs"

definition alternative_ids :: "db_map \<Rightarrow> name_or_id list \<Rightarrow> error + int list" where
  "alternative_ids db alternatives =
     (let alternative_names = names_of alternatives;
          ids_from_db = filter (in_ids (id_for_in db) alt_name (map Item alternative_names))
                               (alternative_sq db);
          names_in_db = map alt_name ids_from_db
      in if length alternative_names \<noteq> length names_in_db then
           Inl (SpineDBAPIError
                  (Alternatives_not_found (filter (\<lambda>name. name \<notin> set names_in_db) alternative_names)))
         else
           let ids = map alt_id ids_from_db;
               alternative_ids = ids_of alternatives;
               ids_from_db = filter (in_ids Integer_value alt_id (map Item alternative_ids))
                                    (alternative_sq db);
               ids_in_db = map alt_id ids_from_db
           in if length alternative_ids \<noteq> length ids_from_db then
                Inl (SpineDBAPIError
                       (Alternative_ids_not_found (filter (\<lambda>i. i \<notin> set ids_in_db) alternative_ids)))
              else Inr (ids @ ids_in_db))"

text \<open>
  \<open>alternatives\<close> is optional in the source: \<open>None\<close> is kept as \<open>None\<close> in the state, and
  \<open>in_\<close> then fails with \<open>TypeError\<close> on \<open>Anyone in None\<close> when the subquery is made.
\<close>

record AlternativeFilterState =
  afs_original_parameter_value_sq :: "parameter_value_row list"
  afs_alternatives :: "int list option"

definition AlternativeFilterState_init ::
  "db_map \<Rightarrow> name_or_id list option \<Rightarrow> error + AlternativeFilterState" where
  "AlternativeFilterState_init db alternatives =
     (case alternatives of
        None \<Rightarrow> Inr \<lparr>afs_original_parameter_value_sq = parameter_value_sq db, afs_alternatives = None\<rparr>
      | Some alts \<Rightarrow>
          (case alternative_ids db alts of
             Inl e \<Rightarrow> Inl e
           | Inr ids \<Rightarrow>
               Inr \<lparr>afs_original_parameter_value_sq = parameter_value_sq db,
                    afs_alternatives = Some ids\<rparr>))"

text \<open>
  The extended subquery of the scenario filter: the rows of the original parameter value
  subquery joined with the scenario alternatives of the chosen scenario, each with its
  \<open>row_number()\<close> within the partition of its \<open>(parameter_definition_id, entity_id)\<close>,
  counted in the order of descending rank.  SQL leaves the order of rows of equal rank
  open; the earlier row of the join is counted first here.
\<close>

type_synonym joined_row = "parameter_value_row \<times> scenario_alternative_row"

definition same_partition :: "joined_row \<Rightarrow> joined_row \<Rightarrow> bool" where
  "same_partition a b \<longleftrightarrow>
     pv_parameter_definition_id (fst a) = pv_parameter_definition_id (fst b) \<and>
     pv_entity_id (fst a) = pv_entity_id (fst b)"

definition max_rank_row_number :: "joined_row list \<Rightarrow> nat \<Rightarrow> nat" where
  "max_rank_row_number rows i =
     Suc (length (filter
       (\<lambda>k. same_partition (rows ! k) (rows ! i) \<and>
            (sa_rank (snd (rows ! k)) > sa_rank (snd (rows ! i)) \<or>
             sa_rank (snd (rows ! k)) = sa_rank (snd (rows ! i)) \<and> k < i))
       [0..<length rows]))"

definition scenario_join :: "ScenarioFilterState \<Rightarrow> scenario_alternative_row list \<Rightarrow> joined_row list" where
  "scenario_join state sas =
     concat (map (\<lambda>pv. map (Pair pv)
                          (filter (\<lambda>sa. pv_alternative_id pv = sa_alternative_id sa \<and>
                                        sa_scenario_id sa = sfs_scenario state) sas))
                 (sfs_original_parameter_value_sq state))"

text \<open>
  The key under which the data model allows one parameter value: definition, entity and
  alternative.  A joined row is top ranked when no row of its partition has a greater rank.
\<close>

definition pv_key :: "parameter_value_row \<Rightarrow> int \<times> int \<times> int" where
  "pv_key pv = (pv_parameter_definition_id pv, pv_entity_id pv, pv_alternative_id pv)"

definition top_ranked :: "joined_row list \<Rightarrow> joined_row \<Rightarrow> bool" where
  "top_ranked rows j \<longleftrightarrow>
     (\<forall>j' \<in> set rows. same_partition j' j \<longrightarrow> sa_rank (snd j') \<le> sa_rank (snd j))"

definition ext_parameter_value_sq ::
  "db_map \<Rightarrow> ScenarioFilterState \<Rightarrow> (parameter_value_row \<times> nat) list" where
  "ext_parameter_value_sq db state =
     (let rows = scenario_join state (scenario_alternative_sq db)
      in map (\<lambda>i. (fst (rows ! i), max_rank_row_number rows i)) [0..<length rows])"

definition make_scenario_filtered_parameter_value_sq ::
  "db_map \<Rightarrow> ScenarioFilterState \<Rightarrow> parameter_value_row list" where
  "make_scenario_filtered_parameter_value_sq db state =
     map fst (filter (\<lambda>r. snd r = 1) (ext_parameter_value_sq db state))"

definition make_alternative_filtered_parameter_value_sq ::
  "db_map \<Rightarrow> AlternativeFilterState \<Rightarrow> error + parameter_value_row list" where
  "make_alternative_filtered_parameter_value_sq db state =
     (case afs_alternatives state of
        None \<Rightarrow> Inl TypeError
      | Some ids \<Rightarrow>
          Inr (filter (in_ids Integer_value pv_alternative_id (map Item ids))
                      (afs_original_parameter_value_sq state)))"

text \<open>
  Applying a filter installs the maker on the mapping; the parameter value subquery read
  afterwards is the maker's result.
\<close>

text \<open>
  The store of the examples keeps a text of decimal digits as the integer that it reads,
  and any other text as it is.  SQLite does so with a text of up to 18 digits and with a
  text that begins with a letter; the examples have no other texts.
\<close>

definition digits_as_integer :: "string \<Rightarrow> sql_value" where
  "digits_as_integer s =
     (if s \<noteq> [] \<and> (\<forall>c \<in> set s. c \<in> set ''0123456789'')
      then Integer_value (int (foldl (\<lambda>n c. 10 * n + (of_char c - 48)) 0 s))
      else Text_value s)"

text \<open>
  The database of the scenario resolution example: alternatives \<open>A1\<close> of rank 1 and \<open>A2\<close>
  of rank 2 in scenario \<open>S\<close>, and parameter 1 of entity 1 with value \<open>10\<close> under \<open>A1\<close>
  and \<open>20\<close> under \<open>A2\<close>.
\<close>

definition scenario_example_db :: db_map where
  "scenario_example_db =
     \<lparr>alternative_sq =
        [\<lparr>alt_id = 1, alt_name = ''Base''\<rparr>, \<lparr>alt_id = 2, alt_name = ''A1''\<rparr>,
         \<lparr>alt_id = 3, alt_name = ''A2''\<rparr>],
      scenario_sq = [\<lparr>scen_id = 1, scen_name = ''S''\<rparr>],
      scenario_alternative_sq =
        [\<lparr>sa_scenario_id = 1, sa_alternative_id = 2, sa_rank = 1\<rparr>,
         \<lparr>sa_scenario_id = 1, sa_alternative_id = 3, sa_rank = 2\<rparr>],
      parameter_value_sq =
        [\<lparr>pv_id = 1, pv_parameter_definition_id = 1, pv_entity_id = 1, pv_alternative_id = 2,
          pv_value = ''10''\<rparr>,
         \<lparr>pv_id = 2, pv_parameter_definition_id = 1, pv_entity_id = 1, pv_alternative_id = 3,
          pv_value = ''20''\<rparr>],
      id_for_in = digits_as_integer\<rparr>"

text \<open>
  The database of the alternative resolution examples: the alternatives \<open>Base\<close>, \<open>A1\<close>
  and \<open>7\<close>, and no value.
\<close>

definition alternative_example_db :: db_map where
  "alternative_example_db =
     \<lparr>alternative_sq =
        [\<lparr>alt_id = 1, alt_name = ''Base''\<rparr>, \<lparr>alt_id = 2, alt_name = ''A1''\<rparr>,
         \<lparr>alt_id = 7, alt_name = ''7''\<rparr>],
      scenario_sq = [], scenario_alternative_sq = [], parameter_value_sq = [],
      id_for_in = digits_as_integer\<rparr>"

definition apply_scenario_filter_to_parameter_value_sq :: "db_map \<Rightarrow> name_or_id \<Rightarrow> error + db_map" where
  "apply_scenario_filter_to_parameter_value_sq db scenario =
     (case ScenarioFilterState_init db scenario of
        Inl e \<Rightarrow> Inl e
      | Inr state \<Rightarrow>
          Inr (db\<lparr>parameter_value_sq := make_scenario_filtered_parameter_value_sq db state\<rparr>))"

definition apply_alternative_filter_to_parameter_value_sq ::
  "db_map \<Rightarrow> name_or_id list option \<Rightarrow> error + db_map" where
  "apply_alternative_filter_to_parameter_value_sq db alternatives =
     (case AlternativeFilterState_init db alternatives of
        Inl e \<Rightarrow> Inl e
      | Inr state \<Rightarrow>
          (case make_alternative_filtered_parameter_value_sq db state of
             Inl e \<Rightarrow> Inl e
           | Inr rows \<Rightarrow> Inr (db\<lparr>parameter_value_sq := rows\<rparr>)))"


section \<open>Commit and rollback: \<open>db_mapping_commit_mixin.py\<close>\<close>

text \<open>
  The store as the mapping's connection shows it: the rows of the \<open>commit\<close> table and the
  data of the other tables, which only statements touch.  \<open>date\<close> is a time stamp; the clock
  read by \<open>datetime.now\<close> is an argument of every function that reads it.
\<close>

record commit_row =
  cr_id :: int
  cr_user :: string
  cr_date :: nat
  cr_comment :: string

record 'd database =
  commit_table :: "commit_row list"
  data :: 'd

text \<open>
  A transaction as \<open>connection.begin()\<close> returns it: whether it is active, and the store
  as it was when the transaction began, which a rollback restores.
\<close>

record 'd transaction_state =
  is_active :: bool
  begin_state :: "'d database"

text \<open>
  The attributes of the mixin.  \<open>_commit_id\<close> does not exist before the first transaction
  starts, which is \<open>None\<close> here.
\<close>

record 'd commit_mapping =
  cm_username :: string
  cm_transaction :: "'d transaction_state option"
  cm_commit_id :: "int option"
  cm_connection :: "'d database"

text \<open>A statement acts on the data with the items it is executed with.\<close>

type_synonym ('d, 'i) statement = "'i list \<Rightarrow> 'd \<Rightarrow> 'd"

definition has_pending_changes :: "'d commit_mapping \<Rightarrow> bool" where
  "has_pending_changes m =
     (case cm_transaction m of None \<Rightarrow> False | Some t \<Rightarrow> is_active t)"

text \<open>
  The primary key that the store gives to an inserted \<open>commit\<close> row: one more than the
  greatest id of the table, 1 in an empty table.
\<close>

definition inserted_primary_key :: "commit_row list \<Rightarrow> int" where
  "inserted_primary_key rows = (if rows = [] then 1 else Max (set (map cr_id rows)) + 1)"

definition start_new_transaction :: "nat \<Rightarrow> 'd commit_mapping \<Rightarrow> 'd commit_mapping" where
  "start_new_transaction now m =
     (let transaction = \<lparr>is_active = True, begin_state = cm_connection m\<rparr>;
          user = cm_username m;
          date = now;
          rows = commit_table (cm_connection m);
          new_id = inserted_primary_key rows
      in m\<lparr>cm_transaction := Some transaction,
            cm_connection := (cm_connection m)\<lparr>commit_table :=
               rows @ [\<lparr>cr_id = new_id, cr_user = user, cr_date = date, cr_comment = []\<rparr>]\<rparr>,
            cm_commit_id := Some new_id\<rparr>)"

definition checked_execute ::
  "('d, 'i) statement \<Rightarrow> 'i list \<Rightarrow> nat \<Rightarrow> 'd commit_mapping \<Rightarrow> 'd commit_mapping" where
  "checked_execute stmt items now m =
     (if items = [] then m
      else
        let m1 = (if \<not> has_pending_changes m then start_new_transaction now m else m)
        in m1\<lparr>cm_connection := (cm_connection m1)\<lparr>data := stmt items (data (cm_connection m1))\<rparr>\<rparr>)"

definition commit_session :: "string \<Rightarrow> nat \<Rightarrow> 'd commit_mapping \<Rightarrow> error + 'd commit_mapping" where
  "commit_session comment now m =
     (if \<not> has_pending_changes m then Inl (SpineDBAPIError Nothing_to_commit)
      else
        case cm_commit_id m of
          None \<Rightarrow> Inl AttributeError
        | Some commit_id \<Rightarrow>
            let user = cm_username m;
                date = now;
                upd = map (\<lambda>r. if cr_id r = commit_id
                                 then r\<lparr>cr_user := user, cr_date := date, cr_comment := comment\<rparr>
                                 else r)
            in Inr (m\<lparr>cm_connection :=
                        (cm_connection m)\<lparr>commit_table := upd (commit_table (cm_connection m))\<rparr>,
                      cm_transaction := map_option (\<lambda>t. t\<lparr>is_active := False\<rparr>) (cm_transaction m)\<rparr>))"

definition rollback_session :: "'d commit_mapping \<Rightarrow> error + 'd commit_mapping" where
  "rollback_session m =
     (if \<not> has_pending_changes m then Inl (SpineDBAPIError Nothing_to_rollback)
      else
        case cm_transaction m of
          None \<Rightarrow> Inl AttributeError
        | Some t \<Rightarrow>
            Inr (m\<lparr>cm_connection := begin_state t,
                   cm_transaction := Some (t\<lparr>is_active := False\<rparr>)\<rparr>))"

text \<open>
  A session is a sequence of calls on one mapping.  A call that raises leaves the mapping
  as it was, and the caller goes on.
\<close>

datatype ('d, 'i) session_call =
    Execute "('d, 'i) statement" "'i list" nat
  | Commit_session string nat
  | Rollback_session

fun call :: "'d commit_mapping \<Rightarrow> ('d, 'i) session_call \<Rightarrow> 'd commit_mapping" where
  "call m (Execute stmt items now) = checked_execute stmt items now m"
| "call m (Commit_session comment now) =
     (case commit_session comment now m of Inl e \<Rightarrow> m | Inr m' \<Rightarrow> m')"
| "call m Rollback_session = (case rollback_session m of Inl e \<Rightarrow> m | Inr m' \<Rightarrow> m')"

definition new_commit_mapping :: "string \<Rightarrow> 'd database \<Rightarrow> 'd commit_mapping" where
  "new_commit_mapping username db =
     \<lparr>cm_username = username, cm_transaction = None, cm_commit_id = None, cm_connection = db\<rparr>"

text \<open>
  Writes are pending after a sequence of calls when a statement has been executed with at
  least one item since the last commit or rollback.  This follows the words of the
  specification and does not look at the mapping.
\<close>

fun writes_pending_after :: "bool \<Rightarrow> ('d, 'i) session_call \<Rightarrow> bool" where
  "writes_pending_after p (Execute stmt items now) = (p \<or> items \<noteq> [])"
| "writes_pending_after p (Commit_session comment now) = False"
| "writes_pending_after p Rollback_session = False"

definition writes_pending :: "('d, 'i) session_call list \<Rightarrow> bool" where
  "writes_pending calls = foldl writes_pending_after False calls"

text \<open>The writes of a session: statements with their items and the time of the call.\<close>

fun execute_all ::
  "'d commit_mapping \<Rightarrow> (('d, 'i) statement \<times> 'i list \<times> nat) list \<Rightarrow> 'd commit_mapping" where
  "execute_all m [] = m"
| "execute_all m ((stmt, items, now) # ws) = execute_all (checked_execute stmt items now m) ws"

text \<open>
  While changes are pending, the id of the session's \<open>commit\<close> row is known.
\<close>

definition commit_id_known :: "'d commit_mapping \<Rightarrow> bool" where
  "commit_id_known m \<longleftrightarrow> (has_pending_changes m \<longrightarrow> cm_commit_id m \<noteq> None)"


section \<open>Id allocation: \<open>_add_diff_database_mapping.py\<close>\<close>

text \<open>
  The row of the \<open>next_id\<close> table, with the counter of the object classes; the counters of
  the other tables are handled by the same code in their own \<open>_add_\<close> methods.  A counter
  that has never been set is \<open>None\<close>.
\<close>

record next_id_row =
  ni_user :: string
  ni_date :: nat
  ni_object_class_id :: "int option"

text \<open>
  The part of the mapping that \<open>_add_object_classes\<close> works on: the rows of \<open>next_id\<close>, the
  ids of the rows of the original \<open>object_class\<close> table, the rows of the diff table (the
  items with their ids), and \<open>new_item_id["object_class"]\<close>.  \<open>am_faults\<close> is the
  environment: the outcomes of the coming calls of the store that can raise \<open>DBAPIError\<close>
  (\<open>flush\<close>, \<open>bulk_insert_mappings\<close>, \<open>commit\<close>), \<open>True\<close> for a call that raises; a call
  beyond the list succeeds.
\<close>

record 'a add_mapping =
  am_username :: string
  am_NextId :: "next_id_row list"
  am_ObjectClass :: "int list"
  am_DiffObjectClass :: "(int \<times> 'a) list"
  am_new_item_id :: "int set"
  am_faults :: "bool list"

definition storage_call :: "'a add_mapping \<Rightarrow> bool \<times> 'a add_mapping" where
  "storage_call s =
     (case am_faults s of
        [] \<Rightarrow> (False, s)
      | raises # rest \<Rightarrow> (raises, s\<lparr>am_faults := rest\<rparr>))"

text \<open>
  \<open>next_id_with_lock\<close>.  The flushed row is pending in the session: it is the row of the
  table from here on, and a rollback restores the table.
\<close>

definition next_id_with_lock ::
  "nat \<Rightarrow> 'a add_mapping \<Rightarrow> (error + next_id_row) \<times> 'a add_mapping" where
  "next_id_with_lock now s =
     (case am_NextId s of
        r1 # r2 # rs \<Rightarrow> (Inl MultipleResultsFound, s)
      | rows \<Rightarrow>
          let next_id = (case rows of
                           [r] \<Rightarrow> r\<lparr>ni_user := am_username s, ni_date := now\<rparr>
                         | _ \<Rightarrow> \<lparr>ni_user = am_username s, ni_date = now, ni_object_class_id = None\<rparr>);
              (raises, s1) = storage_call s
          in if raises then (Inl (SpineDBAPIError Unable_to_get_next_id), s1)
             else (Inr next_id, s1\<lparr>am_NextId := [next_id]\<rparr>))"

text \<open>\<open>func.max\<close> over the ids of a table: \<open>None\<close> for the empty table.\<close>

definition max_id_of :: "int list \<Rightarrow> int option" where
  "max_id_of ids = (if ids = [] then None else Some (Max (set ids)))"

text \<open>
  \<open>_add_object_classes\<close>.  Python's truth value of an optional integer is false for
  \<open>None\<close> and for 0.  An error after the flush rolls the session back, so the mapping is as
  before the call, apart from the calls of the store that have been made.
\<close>

definition first_id :: "next_id_row \<Rightarrow> int list \<Rightarrow> int" where
  "first_id next_id object_class_ids =
     (case ni_object_class_id next_id of
        Some c \<Rightarrow>
          if c \<noteq> 0 then c
          else (case max_id_of object_class_ids of
                  Some max_id \<Rightarrow> if max_id \<noteq> 0 then max_id + 1 else 1
                | None \<Rightarrow> 1)
      | None \<Rightarrow>
          (case max_id_of object_class_ids of
             Some max_id \<Rightarrow> if max_id \<noteq> 0 then max_id + 1 else 1
           | None \<Rightarrow> 1))"

definition add_object_classes ::
  "'a list \<Rightarrow> nat \<Rightarrow> 'a add_mapping \<Rightarrow> (error + int set) \<times> 'a add_mapping" where
  "add_object_classes kwargs_list now s =
     (case next_id_with_lock now s of
        (Inl e, s1) \<Rightarrow> (Inl e, s1)
      | (Inr next_id, s1) \<Rightarrow>
          let id = first_id next_id (am_ObjectClass s1);
              last = id + int (length kwargs_list);
              id_list = set [id..last - 1];
              item_list = zip [id..last - 1] kwargs_list;
              (raises, s2) = storage_call s1
          in if raises then
               (Inl (SpineDBAPIError DBAPIError_while_inserting_object_classes),
                s\<lparr>am_faults := am_faults s2\<rparr>)
             else
               let (raises, s3) = storage_call s2
               in if raises then
                    (Inl (SpineDBAPIError DBAPIError_while_inserting_object_classes),
                     s\<lparr>am_faults := am_faults s3\<rparr>)
                  else
                    (Inr id_list,
                     s3\<lparr>am_NextId := [next_id\<lparr>ni_object_class_id := Some last\<rparr>],
                        am_DiffObjectClass := am_DiffObjectClass s3 @ item_list,
                        am_new_item_id := am_new_item_id s3 \<union> id_list\<rparr>))"

text \<open>
  The counter that an allocation finds persisted: the counter of the only row of
  \<open>next_id\<close>, when it is set and not 0.
\<close>

definition persisted_counter :: "'a add_mapping \<Rightarrow> int option" where
  "persisted_counter s =
     (case am_NextId s of
        [r] \<Rightarrow> (case ni_object_class_id r of
                  Some c \<Rightarrow> if c \<noteq> 0 then Some c else None
                | None \<Rightarrow> None)
      | _ \<Rightarrow> None)"

text \<open>Successive allocations, each with the time of its call; the results in order.\<close>

fun add_all ::
  "('a list \<times> nat) list \<Rightarrow> 'a add_mapping \<Rightarrow> (error + int set) list \<times> 'a add_mapping" where
  "add_all [] s = ([], s)"
| "add_all ((kwargs_list, now) # rest) s =
     (case add_object_classes kwargs_list now s of
        (r, s1) \<Rightarrow> (case add_all rest s1 of (rs, s2) \<Rightarrow> (r # rs, s2)))"

fun successes :: "(error + 'b) list \<Rightarrow> 'b list" where
  "successes [] = []"
| "successes (Inl e # rs) = successes rs"
| "successes (Inr x # rs) = x # successes rs"

text \<open>
  None of the next \<open>n\<close> calls of the store raises.
\<close>

definition no_fault :: "nat \<Rightarrow> bool list \<Rightarrow> bool" where
  "no_fault n faults \<longleftrightarrow> True \<notin> set (take n faults)"

text \<open>
  The first id that the next allocation hands out: the persisted counter, and without
  one the greatest id of the original table plus one, 1 for the empty table.
\<close>

definition next_first :: "'a add_mapping \<Rightarrow> int" where
  "next_first s =
     (case persisted_counter s of
        Some c \<Rightarrow> c
      | None \<Rightarrow> (if am_ObjectClass s = [] then 1 else Max (set (am_ObjectClass s)) + 1))"

text \<open>
  What successive allocations keep: at most one row of \<open>next_id\<close>, a positive persisted
  counter, and every id of \<open>B\<close>, the ids handed out so far, below the next first id.
\<close>

definition alloc_inv :: "'a add_mapping \<Rightarrow> int set \<Rightarrow> bool" where
  "alloc_inv s B \<longleftrightarrow>
     length (am_NextId s) \<le> 1 \<and> (\<forall>i \<in> set (am_ObjectClass s). 0 \<le> i) \<and>
     (\<forall>c. persisted_counter s = Some c \<longrightarrow> 0 < c) \<and> (\<forall>b \<in> B. b < next_first s)"

text \<open>
  A mapping for the examples: no row in \<open>next_id\<close>, object classes 3, 5 and 4 in the
  original table, and a store whose calls succeed.
\<close>

definition allocation_example :: "string add_mapping" where
  "allocation_example =
     \<lparr>am_username = ''anon'', am_NextId = [], am_ObjectClass = [3, 5, 4],
      am_DiffObjectClass = [], am_new_item_id = {}, am_faults = []\<rparr>"


section \<open>Staged updates: \<open>diff_db_mapping.py\<close>\<close>

text \<open>
  An item is a dictionary from field names to values; the rows of a diff table are kept
  in the same form.  Ids are values of items.
\<close>

datatype field_value = IntV int | StrV string | NoneV

type_synonym item = "string \<rightharpoonup> field_value"







text \<open>
  The statements on a diff table.  The update is executed once for every item: the rows
  whose primary key has the values of the item get the values of the item in the columns
  \<open>keys\<close>.  An item that lacks a bound parameter, of the key or of \<open>keys\<close>, makes the
  execution raise \<open>StatementError\<close>.  The insert appends the items as rows, and the store
  raises \<open>DBAPIError\<close> for a row whose primary key is in the table already.
\<close>

definition matches :: "string list \<Rightarrow> item \<Rightarrow> item \<Rightarrow> bool" where
  "matches primary_key row item \<longleftrightarrow> (\<forall>k \<in> set primary_key. row k = item k)"

definition update_row :: "string list \<Rightarrow> string list \<Rightarrow> item \<Rightarrow> item \<Rightarrow> item" where
  "update_row primary_key keys item row =
     (if matches primary_key row item
      then (\<lambda>k. if k \<in> set keys then item k else row k)
      else row)"

definition sql_update :: "string list \<Rightarrow> string list \<Rightarrow> item \<Rightarrow> item list \<Rightarrow> item list" where
  "sql_update primary_key keys item rows = map (update_row primary_key keys item) rows"










section \<open>Properties of the integrity checker\<close>

text \<open>
  C10 (as amended).  For every object class item with a non-empty name that carries a
  \<open>type_id\<close> different from the object class type and whose name is not among the
  current object classes, \<open>check_object_class\<close> does not raise an integrity error: the
  error branch evaluates \<open>current_items[name]\<close>, and the call ends in \<open>KeyError\<close>.
\<close>

theorem check_object_class_wrong_type_id_KeyError:
  assumes "oc_name item = Some name" and "name \<noteq> []"
    and "oc_type_id item = Some t" and "t \<noteq> object_class_type"
    and "current_items name = None"
  shows "check_object_class item current_items object_class_type = Inl KeyError"
  using assms by (simp add: check_object_class_def)

text \<open>
  The amended C10 at a concrete item: class \<open>fish\<close> with type id 2 where the object
  class type is 1 and only \<open>dog\<close> exists.
\<close>

theorem check_object_class_wrong_type_id_KeyError_witness:
  "check_object_class \<lparr>oc_name = Some ''fish'', oc_type_id = Some 2\<rparr> (map_of [(''dog'', 5)]) 1 = Inl KeyError"
  using check_object_class_wrong_type_id_KeyError
    [of "\<lparr>oc_name = Some ''fish'', oc_type_id = Some 2\<rparr>" "''fish''" 2 1 "map_of [(''dog'', 5)]"]
  by simp

text \<open>
  C10 as stated fails for the empty name, which is not among the current object classes
  either: the guard on the name comes first and raises an integrity error without an id.
\<close>

theorem check_object_class_empty_name_counterexample:
  "oc_type_id \<lparr>oc_name = Some [], oc_type_id = Some 2\<rparr> = Some 2 \<and> (2::int) \<noteq> 1
   \<and> map_of [(''dog'', 5::int)] [] = None
   \<and> check_object_class \<lparr>oc_name = Some [], oc_type_id = Some 2\<rparr> (map_of [(''dog'', 5)]) 1
       = Inl (SpineIntegrityError Empty_object_class_name None)
   \<and> check_object_class \<lparr>oc_name = Some [], oc_type_id = Some 2\<rparr> (map_of [(''dog'', 5)]) 1
       \<noteq> Inl KeyError"
  by (simp add: check_object_class_def)

text \<open>
  C2 at the failing input.  The item names two existing objects whose classes are those
  of the relationship class in the reverse order, and it carries a \<open>type_id\<close> other than
  the relationship entity type.  The branch for the type evaluates
  \<open>current_items_by_name[class_id, name]\<close> for a relationship that does not exist yet, so
  the call ends in \<open>KeyError\<close> and not in an integrity error.
\<close>

theorem check_wide_relationship_wrong_type_id_KeyError:
  "lookup_all (map_of [(10::int, \<lparr>ob_class_id = 200, ob_name = ''a''\<rparr>), (11, \<lparr>ob_class_id = 100, ob_name = ''b''\<rparr>)]) [10, 11]
     = Some [\<lparr>ob_class_id = 200, ob_name = ''a''\<rparr>, \<lparr>ob_class_id = 100, ob_name = ''b''\<rparr>]
   \<and> map ob_class_id [\<lparr>ob_class_id = 200, ob_name = ''a''\<rparr>, \<lparr>ob_class_id = 100, ob_name = ''b''\<rparr>] \<noteq> [100, 200]
   \<and> check_wide_relationship
       \<lparr>wr_name = Some ''r'', wr_class_id = Some 1, wr_type_id = Some 7, wr_object_id_list = Some [10, 11]\<rparr>
       (map_of []) (map_of [])
       (map_of [(1, \<lparr>rc_object_class_id_list = [100, 200], rc_name = ''rc''\<rparr>)])
       (map_of [(10::int, \<lparr>ob_class_id = 200, ob_name = ''a''\<rparr>), (11, \<lparr>ob_class_id = 100, ob_name = ''b''\<rparr>)])
       2 = Inl KeyError"
  by (simp add: check_wide_relationship_def)

text \<open>
  What \<open>check_wide_relationship\<close> does otherwise: an accepted item has members whose
  classes are the member classes of its relationship class, in the same order, and an
  item without a wrong \<open>type_id\<close> whose member classes differ is rejected with an
  integrity error.
\<close>

lemma check_wide_relationship_accepted:
  assumes "check_wide_relationship wide_item by_name by_obj_lst relationship_classes objects t = Inr ()"
  shows "\<exists>class_id rel_class object_id_list object_rows.
           wr_class_id wide_item = Some class_id \<and>
           relationship_classes class_id = Some rel_class \<and>
           wr_object_id_list wide_item = Some object_id_list \<and>
           lookup_all objects object_id_list = Some object_rows \<and>
           map ob_class_id object_rows = rc_object_class_id_list rel_class"
  using assms
  by (auto simp: check_wide_relationship_def split: option.splits if_splits)

lemma check_wide_relationship_mismatch_rejected:
  assumes "wr_class_id wide_item = Some class_id"
    and "relationship_classes class_id = Some rel_class"
    and "wr_object_id_list wide_item = Some object_id_list"
    and "lookup_all objects object_id_list = Some object_rows"
    and "map ob_class_id object_rows \<noteq> rc_object_class_id_list rel_class"
    and "wr_type_id wide_item = None \<or> wr_type_id wide_item = Some t"
  shows "is_integrity_error (check_wide_relationship wide_item by_name by_obj_lst relationship_classes objects t)"
  using assms
  by (auto simp: check_wide_relationship_def split: option.splits if_splits)

section \<open>Properties of the mapping construction\<close>





section \<open>Properties of the filters\<close>

lemma in_ids_Item:
  "in_ids kept column (map Item xs) = (\<lambda>r. kept (column r) \<in> kept ` set xs)"
  by (auto simp: in_ids_def fun_eq_iff)

lemma in_ids_Integer_value [simp]:
  "in_ids Integer_value column (map Item xs) = (\<lambda>r. column r \<in> set xs)"
  by (auto simp: in_ids_Item fun_eq_iff)


text \<open>
  C9.  With the empty list of alternatives the alternative filter leaves no row in the
  parameter value subquery, whatever the database holds.
\<close>

theorem alternative_filter_empty_list_no_rows:
  "apply_alternative_filter_to_parameter_value_sq db (Some []) = Inr (db\<lparr>parameter_value_sq := []\<rparr>)"
  by (simp add: apply_alternative_filter_to_parameter_value_sq_def AlternativeFilterState_init_def
      alternative_ids_def make_alternative_filtered_parameter_value_sq_def in_ids_def)

text \<open>
  C9 on the example database, which holds two parameter values.
\<close>

theorem alternative_filter_empty_list_no_rows_witness:
  "apply_alternative_filter_to_parameter_value_sq scenario_example_db (Some [])
     = Inr (scenario_example_db\<lparr>parameter_value_sq := []\<rparr>)"
  using alternative_filter_empty_list_no_rows[of scenario_example_db] by simp



lemma alternative_example_db_simps:
  "alternative_sq alternative_example_db =
     [\<lparr>alt_id = 1, alt_name = ''Base''\<rparr>, \<lparr>alt_id = 2, alt_name = ''A1''\<rparr>,
      \<lparr>alt_id = 7, alt_name = ''7''\<rparr>]"
  "id_for_in alternative_example_db = digits_as_integer"
  by (simp_all add: alternative_example_db_def)

lemma digits_as_integer_examples:
  "digits_as_integer ''Base'' = Text_value ''Base''"
  "digits_as_integer ''A1'' = Text_value ''A1''"
  "digits_as_integer ''x'' = Text_value ''x''"
  "digits_as_integer ''y'' = Text_value ''y''"
  "digits_as_integer ''7'' = Integer_value 7"
  "digits_as_integer ''007'' = Integer_value 7"
  by (simp_all add: digits_as_integer_def)




text \<open>
  Names that the column \<open>id_for_in\<close> does not keep apart are outside the amended claim:
  the name \<open>007\<close> is the name of no alternative, the store keeps it as the integer 7 as
  it does the name of alternative \<open>7\<close>, and the list resolves to that alternative without
  an error.
\<close>

lemma alternative_ids_number_as_name:
  "''007'' \<notin> set (map alt_name (alternative_sq alternative_example_db))
   \<and> alternative_ids alternative_example_db [Name ''007''] = Inr [7]"
  by (simp add: alternative_ids_def alternative_example_db_simps in_ids_Item
      digits_as_integer_examples)

lemma set_scenario_join:
  "set (scenario_join state sas) =
     {(pv, sa). pv \<in> set (sfs_original_parameter_value_sq state) \<and> sa \<in> set sas \<and>
        pv_alternative_id pv = sa_alternative_id sa \<and> sa_scenario_id sa = sfs_scenario state}"
  by (auto simp: scenario_join_def)

lemma distinct_join_aux:
  assumes "distinct pvs" and "\<And>pv. distinct (filter (Q pv) sas)"
  shows "distinct (concat (map (\<lambda>pv. map (Pair pv) (filter (Q pv) sas)) pvs))"
  using assms(1)
proof (induction pvs)
  case Nil
  then show ?case by simp
next
  case (Cons pv pvs)
  have "distinct (map (Pair pv) (filter (Q pv) sas))"
    using assms(2) by (simp add: distinct_map inj_on_def)
  moreover have "set (map (Pair pv) (filter (Q pv) sas))
      \<inter> set (concat (map (\<lambda>pv. map (Pair pv) (filter (Q pv) sas)) pvs)) = {}"
    using Cons.prems by auto
  ultimately show ?case using Cons by simp
qed

lemma distinct_scenario_join:
  assumes "distinct (map sa_rank (filter (\<lambda>sa. sa_scenario_id sa = sfs_scenario state) sas))"
    and "distinct (map pv_key (sfs_original_parameter_value_sq state))"
  shows "distinct (scenario_join state sas)"
proof -
  have d: "distinct (filter (\<lambda>sa. sa_scenario_id sa = sfs_scenario state) sas)"
    using assms(1) by (rule distinct_map[THEN iffD1, THEN conjunct1])
  have "distinct (filter (\<lambda>sa. pv_alternative_id pv = sa_alternative_id sa \<and>
                               sa_scenario_id sa = sfs_scenario state) sas)"
    for pv :: parameter_value_row
  proof -
    have "filter (\<lambda>sa. pv_alternative_id pv = sa_alternative_id sa \<and>
                               sa_scenario_id sa = sfs_scenario state) sas
        = filter (\<lambda>sa. pv_alternative_id pv = sa_alternative_id sa)
            (filter (\<lambda>sa. sa_scenario_id sa = sfs_scenario state) sas)"
      unfolding filter_filter by (rule filter_cong) auto
    then show ?thesis using d by (simp only: distinct_filter)
  qed
  moreover have "distinct (sfs_original_parameter_value_sq state)"
    using assms(2) by (rule distinct_map[THEN iffD1, THEN conjunct1])
  ultimately show ?thesis
    unfolding scenario_join_def by (intro distinct_join_aux)
qed

lemma joined_rank_inj:
  assumes r: "distinct (map sa_rank (filter (\<lambda>sa. sa_scenario_id sa = sfs_scenario state) sas))"
    and k: "distinct (map pv_key (sfs_original_parameter_value_sq state))"
    and a: "a \<in> set (scenario_join state sas)" and b: "b \<in> set (scenario_join state sas)"
    and p: "same_partition a b" and eq: "sa_rank (snd a) = sa_rank (snd b)"
  shows "a = b"
proof -
  obtain pa sa pb sb where ab: "a = (pa, sa)" "b = (pb, sb)"
    by (cases a, cases b) auto
  from a b ab have mem:
    "pa \<in> set (sfs_original_parameter_value_sq state)" "pb \<in> set (sfs_original_parameter_value_sq state)"
    "sa \<in> set (filter (\<lambda>sa. sa_scenario_id sa = sfs_scenario state) sas)"
    "sb \<in> set (filter (\<lambda>sa. sa_scenario_id sa = sfs_scenario state) sas)"
    "pv_alternative_id pa = sa_alternative_id sa" "pv_alternative_id pb = sa_alternative_id sb"
    by (auto simp: set_scenario_join)
  have "inj_on sa_rank (set (filter (\<lambda>sa. sa_scenario_id sa = sfs_scenario state) sas))"
    using r by (simp add: distinct_map)
  with mem(3,4) eq ab have s: "sa = sb"
    by (auto dest: inj_onD)
  have "inj_on pv_key (set (sfs_original_parameter_value_sq state))"
    using k by (simp add: distinct_map)
  moreover have "pv_key pa = pv_key pb"
    using p ab s mem(5,6) by (simp add: pv_key_def same_partition_def)
  ultimately have "pa = pb" using mem(1,2) by (auto dest: inj_onD)
  with s ab show ?thesis by simp
qed

lemma row_number_one_iff:
  assumes r: "distinct (map sa_rank (filter (\<lambda>sa. sa_scenario_id sa = sfs_scenario state) sas))"
    and k: "distinct (map pv_key (sfs_original_parameter_value_sq state))"
    and i: "i < length (scenario_join state sas)"
  shows "max_rank_row_number (scenario_join state sas) i = 1
         \<longleftrightarrow> top_ranked (scenario_join state sas) (scenario_join state sas ! i)"
proof -
  let ?rows = "scenario_join state sas"
  have d: "distinct ?rows" using r k by (rule distinct_scenario_join)
  have tie: "\<not> (same_partition (?rows ! m) (?rows ! i) \<and>
                sa_rank (snd (?rows ! m)) = sa_rank (snd (?rows ! i)) \<and> m < i)" for m
  proof
    assume h: "same_partition (?rows ! m) (?rows ! i) \<and>
                sa_rank (snd (?rows ! m)) = sa_rank (snd (?rows ! i)) \<and> m < i"
    then have m: "m < length ?rows" using i by simp
    have "?rows ! m = ?rows ! i"
      using joined_rank_inj[OF r k nth_mem[OF m] nth_mem[OF i]] h by simp
    with d m i have "m = i" by (simp add: nth_eq_iff_index_eq)
    with h show False by simp
  qed
  have "max_rank_row_number ?rows i = 1 \<longleftrightarrow>
        (\<forall>m < length ?rows. \<not> (same_partition (?rows ! m) (?rows ! i) \<and>
             sa_rank (snd (?rows ! m)) > sa_rank (snd (?rows ! i))))"
    using tie by (auto simp: max_rank_row_number_def filter_empty_conv)
  also have "\<dots> \<longleftrightarrow> top_ranked ?rows (?rows ! i)"
    unfolding top_ranked_def all_set_conv_all_nth by (auto simp: not_less)
  finally show ?thesis .
qed

lemma filter_by_index:
  "map ((!) xs) (filter (\<lambda>i. P (xs ! i)) [0..<length xs]) = filter P xs"
proof -
  have "filter P xs = filter P (map ((!) xs) [0..<length xs])"
    by (simp add: map_nth)
  also have "\<dots> = map ((!) xs) (filter (P \<circ> (!) xs) [0..<length xs])"
    by (rule filter_map)
  finally show ?thesis by (simp add: comp_def)
qed

lemma scenario_filtered_eq_top_ranked:
  assumes r: "distinct (map sa_rank (filter (\<lambda>sa. sa_scenario_id sa = sfs_scenario state)
                                        (scenario_alternative_sq db)))"
    and k: "distinct (map pv_key (sfs_original_parameter_value_sq state))"
  shows "make_scenario_filtered_parameter_value_sq db state =
           map fst (filter (top_ranked (scenario_join state (scenario_alternative_sq db)))
                          (scenario_join state (scenario_alternative_sq db)))"
proof -
  let ?rows = "scenario_join state (scenario_alternative_sq db)"
  have sel: "filter (\<lambda>i. max_rank_row_number ?rows i = 1) [0..<length ?rows]
           = filter (\<lambda>i. top_ranked ?rows (?rows ! i)) [0..<length ?rows]"
  proof (rule filter_cong[OF refl])
    fix i assume "i \<in> set [0..<length ?rows]"
    then have "i < length ?rows" by simp
    then show "(max_rank_row_number ?rows i = 1) = top_ranked ?rows (?rows ! i)"
      by (rule row_number_one_iff[OF r k])
  qed
  have "make_scenario_filtered_parameter_value_sq db state
        = map (\<lambda>i. fst (?rows ! i)) (filter (\<lambda>i. max_rank_row_number ?rows i = 1) [0..<length ?rows])"
    by (simp add: make_scenario_filtered_parameter_value_sq_def ext_parameter_value_sq_def
        Let_def filter_map comp_def)
  also have "\<dots> = map fst (map ((!) ?rows) (filter (\<lambda>i. top_ranked ?rows (?rows ! i)) [0..<length ?rows]))"
    unfolding sel by (simp add: comp_def)
  also have "\<dots> = map fst (filter (top_ranked ?rows) ?rows)"
    by (simp only: filter_by_index)
  finally show ?thesis .
qed

lemma distinct_singleton:
  assumes "distinct xs" and "x \<in> set xs" and "\<And>y. y \<in> set xs \<Longrightarrow> y = x"
  shows "xs = [x]"
proof (cases xs)
  case Nil
  with assms(2) show ?thesis by simp
next
  case (Cons a as)
  have "as = []"
  proof (cases as)
    case Nil
    then show ?thesis .
  next
    case (Cons b bs)
    with \<open>xs = a # as\<close> assms(3)[of a] assms(3)[of b] assms(1) show ?thesis by auto
  qed
  with Cons assms(3)[of a] show ?thesis by simp
qed

text \<open>
  C1.  In a database where the ranks of the scenario are unique and a parameter value is
  unique for its definition, entity and alternative, the scenario filtered subquery
  holds, for every pair of a parameter definition \<open>d\<close> and an entity \<open>e\<close> with a value
  under an alternative of the scenario, exactly one row, and that row is the value under
  the alternative whose rank in the scenario is the highest among the alternatives with
  a value for the pair; a pair without such a value has no row.
\<close>

theorem scenario_filter_keeps_highest_rank:
  assumes r: "distinct (map sa_rank (filter (\<lambda>sa. sa_scenario_id sa = sfs_scenario state)
                                        (scenario_alternative_sq db)))"
    and k: "distinct (map pv_key (sfs_original_parameter_value_sq state))"
  shows "(if \<exists>pv \<in> set (sfs_original_parameter_value_sq state).
              \<exists>sa \<in> set (scenario_alternative_sq db).
                pv_parameter_definition_id pv = d \<and> pv_entity_id pv = e \<and>
                sa_alternative_id sa = pv_alternative_id pv \<and> sa_scenario_id sa = sfs_scenario state
          then \<exists>pv sa.
                 filter (\<lambda>row. pv_parameter_definition_id row = d \<and> pv_entity_id row = e)
                        (make_scenario_filtered_parameter_value_sq db state) = [pv]
               \<and> pv \<in> set (sfs_original_parameter_value_sq state)
               \<and> pv_parameter_definition_id pv = d \<and> pv_entity_id pv = e
               \<and> sa \<in> set (scenario_alternative_sq db)
               \<and> sa_alternative_id sa = pv_alternative_id pv \<and> sa_scenario_id sa = sfs_scenario state
               \<and> (\<forall>pv' \<in> set (sfs_original_parameter_value_sq state).
                    \<forall>sa' \<in> set (scenario_alternative_sq db).
                      pv_parameter_definition_id pv' = d \<and> pv_entity_id pv' = e \<and>
                      sa_alternative_id sa' = pv_alternative_id pv' \<and>
                      sa_scenario_id sa' = sfs_scenario state
                      \<longrightarrow> sa_rank sa' \<le> sa_rank sa)
          else filter (\<lambda>row. pv_parameter_definition_id row = d \<and> pv_entity_id row = e)
                      (make_scenario_filtered_parameter_value_sq db state) = [])"
proof -
  let ?sas = "scenario_alternative_sq db"
  let ?pvs = "sfs_original_parameter_value_sq state"
  let ?rows = "scenario_join state ?sas"
  let ?in_de = "\<lambda>row. pv_parameter_definition_id row = d \<and> pv_entity_id row = e"
  let ?sel = "filter (\<lambda>j. top_ranked ?rows j \<and> ?in_de (fst j)) ?rows"
  have res: "filter ?in_de (make_scenario_filtered_parameter_value_sq db state) = map fst ?sel"
    by (simp add: scenario_filtered_eq_top_ranked[OF r k] filter_map comp_def)
  have d: "distinct ?sel"
    using distinct_scenario_join[OF r k] by simp
  let ?part = "{j \<in> set ?rows. ?in_de (fst j)}"
  show ?thesis
  proof (cases "?part = {}")
    case True
    then have "?sel = []" by (auto simp: filter_empty_conv)
    moreover have "\<not> (\<exists>pv \<in> set ?pvs. \<exists>sa \<in> set ?sas.
                pv_parameter_definition_id pv = d \<and> pv_entity_id pv = e \<and>
                sa_alternative_id sa = pv_alternative_id pv \<and> sa_scenario_id sa = sfs_scenario state)"
    proof
      assume "\<exists>pv \<in> set ?pvs. \<exists>sa \<in> set ?sas.
                pv_parameter_definition_id pv = d \<and> pv_entity_id pv = e \<and>
                sa_alternative_id sa = pv_alternative_id pv \<and> sa_scenario_id sa = sfs_scenario state"
      then obtain pv sa where "pv \<in> set ?pvs" "sa \<in> set ?sas"
        "pv_parameter_definition_id pv = d" "pv_entity_id pv = e"
        "sa_alternative_id sa = pv_alternative_id pv" "sa_scenario_id sa = sfs_scenario state"
        by blast
      then have "(pv, sa) \<in> ?part" by (simp add: set_scenario_join)
      with True show False by blast
    qed
    ultimately show ?thesis using res by simp
  next
    case False
    have fin: "finite (sa_rank ` snd ` ?part)" by simp
    from False have ne: "sa_rank ` snd ` ?part \<noteq> {}" by simp
    from Max_in[OF fin ne] obtain j where j: "j \<in> ?part"
      and jmax: "sa_rank (snd j) = Max (sa_rank ` snd ` ?part)"
      by auto
    have le: "sa_rank (snd j') \<le> sa_rank (snd j)" if "j' \<in> ?part" for j'
      using that Max_ge[OF fin, of "sa_rank (snd j')"] jmax by auto
    have top: "top_ranked ?rows j"
      unfolding top_ranked_def
    proof (intro ballI impI)
      fix j' assume "j' \<in> set ?rows" "same_partition j' j"
      with j have "j' \<in> ?part" by (simp add: same_partition_def)
      then show "sa_rank (snd j') \<le> sa_rank (snd j)" by (rule le)
    qed
    have jsel: "j \<in> set ?sel" using j top by simp
    have uniq: "y = j" if "y \<in> set ?sel" for y
    proof -
      from that have y: "y \<in> set ?rows" "top_ranked ?rows y" "?in_de (fst y)" by auto
      with j have sp: "same_partition y j" "same_partition j y"
        by (simp_all add: same_partition_def)
      from y(2) j sp(2) have "sa_rank (snd j) \<le> sa_rank (snd y)"
        by (auto simp: top_ranked_def)
      moreover from top y(1) sp(1) have "sa_rank (snd y) \<le> sa_rank (snd j)"
        by (auto simp: top_ranked_def)
      ultimately have "sa_rank (snd y) = sa_rank (snd j)" by simp
      with joined_rank_inj[OF r k y(1) _ sp(1)] j show ?thesis by simp
    qed
    have sel: "?sel = [j]"
      using d jsel uniq by (rule distinct_singleton)
    obtain pv sa where pvsa: "j = (pv, sa)" by (cases j)
    from j pvsa have mem: "pv \<in> set ?pvs" "sa \<in> set ?sas"
      "pv_alternative_id pv = sa_alternative_id sa" "sa_scenario_id sa = sfs_scenario state"
      "pv_parameter_definition_id pv = d" "pv_entity_id pv = e"
      by (auto simp: set_scenario_join)
    have best: "\<forall>pv' \<in> set ?pvs. \<forall>sa' \<in> set ?sas.
                      pv_parameter_definition_id pv' = d \<and> pv_entity_id pv' = e \<and>
                      sa_alternative_id sa' = pv_alternative_id pv' \<and>
                      sa_scenario_id sa' = sfs_scenario state
                      \<longrightarrow> sa_rank sa' \<le> sa_rank sa"
    proof (intro ballI impI)
      fix pv' sa' assume "pv' \<in> set ?pvs" "sa' \<in> set ?sas"
        "pv_parameter_definition_id pv' = d \<and> pv_entity_id pv' = e \<and>
                      sa_alternative_id sa' = pv_alternative_id pv' \<and>
                      sa_scenario_id sa' = sfs_scenario state"
      then have "(pv', sa') \<in> ?part" by (simp add: set_scenario_join)
      from le[OF this] pvsa show "sa_rank sa' \<le> sa_rank sa" by simp
    qed
    have ex: "\<exists>pv \<in> set ?pvs. \<exists>sa \<in> set ?sas.
                pv_parameter_definition_id pv = d \<and> pv_entity_id pv = e \<and>
                sa_alternative_id sa = pv_alternative_id pv \<and> sa_scenario_id sa = sfs_scenario state"
      using mem(1,2) mem(3)[symmetric] mem(4-6) by blast
    have "filter ?in_de (make_scenario_filtered_parameter_value_sq db state) = [pv]"
      using res sel pvsa by simp
    with mem best have "\<exists>pv sa.
                 filter ?in_de (make_scenario_filtered_parameter_value_sq db state) = [pv]
               \<and> pv \<in> set ?pvs
               \<and> pv_parameter_definition_id pv = d \<and> pv_entity_id pv = e
               \<and> sa \<in> set ?sas
               \<and> sa_alternative_id sa = pv_alternative_id pv \<and> sa_scenario_id sa = sfs_scenario state
               \<and> (\<forall>pv' \<in> set ?pvs. \<forall>sa' \<in> set ?sas.
                      pv_parameter_definition_id pv' = d \<and> pv_entity_id pv' = e \<and>
                      sa_alternative_id sa' = pv_alternative_id pv' \<and>
                      sa_scenario_id sa' = sfs_scenario state
                      \<longrightarrow> sa_rank sa' \<le> sa_rank sa)"
      by (intro exI[of _ pv] exI[of _ sa]) simp
    with ex show ?thesis by (simp only: if_True)
  qed
qed

text \<open>
  C1 on the example of the specification: after the scenario filter for \<open>S\<close> the
  subquery is the single row with value \<open>20\<close>.
\<close>

theorem scenario_filter_keeps_highest_rank_witness:
  "distinct (map sa_rank (filter (\<lambda>sa. sa_scenario_id sa = 1)
                                  (scenario_alternative_sq scenario_example_db)))
   \<and> distinct (map pv_key (parameter_value_sq scenario_example_db))
   \<and> apply_scenario_filter_to_parameter_value_sq scenario_example_db (Name ''S'')
       = Inr (scenario_example_db\<lparr>parameter_value_sq :=
                [\<lparr>pv_id = 2, pv_parameter_definition_id = 1, pv_entity_id = 1,
                  pv_alternative_id = 3, pv_value = ''20''\<rparr>]\<rparr>)"
proof -
  let ?state = "\<lparr>sfs_original_parameter_value_sq = parameter_value_sq scenario_example_db,
                 sfs_scenario = 1\<rparr>"
  have ranks: "distinct (map sa_rank (filter (\<lambda>sa. sa_scenario_id sa = sfs_scenario ?state)
                                  (scenario_alternative_sq scenario_example_db)))"
    by (simp add: scenario_example_db_def)
  have keys: "distinct (map pv_key (sfs_original_parameter_value_sq ?state))"
    by (simp add: scenario_example_db_def pv_key_def)
  have state: "ScenarioFilterState_init scenario_example_db (Name ''S'') = Inr ?state"
    by (simp add: ScenarioFilterState_init_def scenario_id_def scenario_example_db_def)
  have rows: "make_scenario_filtered_parameter_value_sq scenario_example_db ?state
         = [\<lparr>pv_id = 2, pv_parameter_definition_id = 1, pv_entity_id = 1,
                  pv_alternative_id = 3, pv_value = ''20''\<rparr>]"
    by code_simp
  note scenario_filter_keeps_highest_rank[OF ranks keys, of 1 1]
  with ranks keys state rows show ?thesis
    by (simp add: apply_scenario_filter_to_parameter_value_sq_def)
qed

section \<open>Properties of commit and rollback\<close>

lemma pending_checked_execute:
  "has_pending_changes (checked_execute stmt items now m) = (has_pending_changes m \<or> items \<noteq> [])"
  by (simp add: checked_execute_def has_pending_changes_def start_new_transaction_def Let_def)

lemma known_checked_execute:
  "commit_id_known m \<Longrightarrow> commit_id_known (checked_execute stmt items now m)"
  by (simp add: checked_execute_def has_pending_changes_def start_new_transaction_def Let_def
      commit_id_known_def)

lemma pending_commit_session:
  "commit_session comment now m = Inr m' \<Longrightarrow> \<not> has_pending_changes m'"
  by (auto simp: commit_session_def has_pending_changes_def Let_def
      split: if_splits option.splits)

lemma pending_rollback_session:
  "rollback_session m = Inr m' \<Longrightarrow> \<not> has_pending_changes m'"
  by (auto simp: rollback_session_def has_pending_changes_def split: if_splits option.splits)

lemma pending_commit_session_error:
  "commit_id_known m \<Longrightarrow> commit_session comment now m = Inl e \<Longrightarrow> \<not> has_pending_changes m"
  by (auto simp: commit_session_def commit_id_known_def Let_def split: if_splits option.splits)

lemma pending_rollback_session_error:
  "rollback_session m = Inl e \<Longrightarrow> \<not> has_pending_changes m"
  by (auto simp: rollback_session_def has_pending_changes_def split: if_splits option.splits)

lemma call_pending:
  assumes "commit_id_known m"
  shows "has_pending_changes (call m c) = writes_pending_after (has_pending_changes m) c"
    and "commit_id_known (call m c)"
proof -
  show "has_pending_changes (call m c) = writes_pending_after (has_pending_changes m) c"
  proof (cases c)
    case (Execute stmt items now)
    then show ?thesis by (simp add: pending_checked_execute)
  next
    case (Commit_session comment now)
    then show ?thesis
      using pending_commit_session[of comment now m] pending_commit_session_error[OF assms, of comment now]
      by (cases "commit_session comment now m") auto
  next
    case Rollback_session
    then show ?thesis
      using pending_rollback_session[of m] pending_rollback_session_error[of m]
      by (cases "rollback_session m") auto
  qed
  show "commit_id_known (call m c)"
  proof (cases c)
    case (Execute stmt items now)
    then show ?thesis using assms by (simp add: known_checked_execute)
  next
    case (Commit_session comment now)
    then show ?thesis
      using assms pending_commit_session[of comment now m]
      by (cases "commit_session comment now m") (auto simp: commit_id_known_def)
  next
    case Rollback_session
    then show ?thesis
      using assms pending_rollback_session[of m]
      by (cases "rollback_session m") (auto simp: commit_id_known_def)
  qed
qed

lemma foldl_call_pending:
  assumes "commit_id_known m"
  shows "has_pending_changes (foldl call m calls)
           = foldl writes_pending_after (has_pending_changes m) calls
         \<and> commit_id_known (foldl call m calls)"
  using assms
proof (induction calls arbitrary: m)
  case Nil
  then show ?case by simp
next
  case (Cons c calls)
  from call_pending[OF Cons.prems, of c] Cons.IH[of "call m c"]
  show ?case by simp
qed

lemma session_pending:
  "has_pending_changes (foldl call (new_commit_mapping username db) calls) = writes_pending calls"
  "commit_id_known (foldl call (new_commit_mapping username db) calls)"
  using foldl_call_pending[of "new_commit_mapping username db" calls]
  by (simp_all add: writes_pending_def commit_id_known_def has_pending_changes_def new_commit_mapping_def)

text \<open>
  C5.  After any sequence of calls on a new mapping, \<open>commit_session\<close> raises
  \<open>Nothing to commit\<close> if and only if no writes are pending; otherwise it sets user, time
  stamp and comment of the session's \<open>commit\<close> row and commits the transaction, which is no
  longer active.  \<open>rollback_session\<close> raises \<open>Nothing to rollback\<close> if and only if no
  writes are pending; otherwise it rolls the transaction back, which restores the store
  to its state at the beginning of the transaction.
\<close>

theorem commit_and_rollback_iff_writes_pending:
  fixes calls :: "('d, 'i) session_call list" and username :: string and db :: "'d database"
  defines "m \<equiv> foldl call (new_commit_mapping username db) calls"
  shows "(commit_session comment now m = Inl (SpineDBAPIError Nothing_to_commit)
            \<longleftrightarrow> \<not> writes_pending calls)
       \<and> (writes_pending calls \<longrightarrow>
            (\<exists>commit_id t. cm_commit_id m = Some commit_id \<and> cm_transaction m = Some t \<and> is_active t \<and>
               commit_session comment now m =
                 Inr (m\<lparr>cm_connection := (cm_connection m)\<lparr>commit_table :=
                          map (\<lambda>r. if cr_id r = commit_id
                                    then r\<lparr>cr_user := cm_username m, cr_date := now, cr_comment := comment\<rparr>
                                    else r)
                              (commit_table (cm_connection m))\<rparr>,
                        cm_transaction := Some (t\<lparr>is_active := False\<rparr>)\<rparr>)))
       \<and> (rollback_session m = Inl (SpineDBAPIError Nothing_to_rollback)
            \<longleftrightarrow> \<not> writes_pending calls)
       \<and> (writes_pending calls \<longrightarrow>
            (\<exists>t. cm_transaction m = Some t \<and> is_active t \<and>
               rollback_session m =
                 Inr (m\<lparr>cm_connection := begin_state t,
                        cm_transaction := Some (t\<lparr>is_active := False\<rparr>)\<rparr>)))"
proof -
  have p: "has_pending_changes m = writes_pending calls" and k: "commit_id_known m"
    unfolding m_def by (rule session_pending)+
  show ?thesis
  proof (cases "writes_pending calls")
    case False
    with p show ?thesis by (simp add: commit_session_def rollback_session_def)
  next
    case True
    with p k obtain commit_id t where "cm_commit_id m = Some commit_id" "cm_transaction m = Some t" "is_active t"
      by (auto simp: commit_id_known_def has_pending_changes_def split: option.splits)
    with True p show ?thesis
      by (simp add: commit_session_def rollback_session_def Let_def)
  qed
qed


lemma inserted_primary_key_fresh:
  "r \<in> set rows \<Longrightarrow> cr_id r < inserted_primary_key rows"
proof -
  assume r: "r \<in> set rows"
  then have "cr_id r \<le> Max (set (map cr_id rows))" by (intro Max_ge) auto
  moreover from r have "rows \<noteq> []" by auto
  ultimately show ?thesis by (simp add: inserted_primary_key_def)
qed

lemma execute_all_pending:
  assumes "has_pending_changes m"
  shows "has_pending_changes (execute_all m ws)
       \<and> commit_table (cm_connection (execute_all m ws)) = commit_table (cm_connection m)
       \<and> cm_commit_id (execute_all m ws) = cm_commit_id m
       \<and> cm_username (execute_all m ws) = cm_username m"
  using assms
proof (induction m ws rule: execute_all.induct)
  case (1 m)
  then show ?case by simp
next
  case (2 m stmt items now ws)
  let ?m1 = "checked_execute stmt items now m"
  from "2.prems" have "has_pending_changes ?m1" by (simp add: pending_checked_execute)
  moreover from "2.prems" have "commit_table (cm_connection ?m1) = commit_table (cm_connection m)"
    "cm_commit_id ?m1 = cm_commit_id m" "cm_username ?m1 = cm_username m"
    by (simp_all add: checked_execute_def Let_def)
  ultimately show ?case using "2.IH" by simp
qed

lemma execute_all_first_write:
  assumes "\<not> has_pending_changes m" and "\<exists>w \<in> set ws. fst (snd w) \<noteq> []"
  shows "\<exists>date. has_pending_changes (execute_all m ws)
       \<and> commit_table (cm_connection (execute_all m ws)) =
           commit_table (cm_connection m) @
             [\<lparr>cr_id = inserted_primary_key (commit_table (cm_connection m)),
               cr_user = cm_username m, cr_date = date, cr_comment = []\<rparr>]
       \<and> cm_commit_id (execute_all m ws) = Some (inserted_primary_key (commit_table (cm_connection m)))
       \<and> cm_username (execute_all m ws) = cm_username m"
  using assms
proof (induction m ws rule: execute_all.induct)
  case (1 m)
  then show ?case by simp
next
  case (2 m stmt items now ws)
  let ?m1 = "checked_execute stmt items now m"
  show ?case
  proof (cases "items = []")
    case True
    then have "?m1 = m" by (simp add: checked_execute_def)
    with True "2.prems" "2.IH" show ?thesis by simp
  next
    case False
    with "2.prems"(1) have m1: "has_pending_changes ?m1"
      "commit_table (cm_connection ?m1) =
           commit_table (cm_connection m) @
             [\<lparr>cr_id = inserted_primary_key (commit_table (cm_connection m)),
               cr_user = cm_username m, cr_date = now, cr_comment = []\<rparr>]"
      "cm_commit_id ?m1 = Some (inserted_primary_key (commit_table (cm_connection m)))"
      "cm_username ?m1 = cm_username m"
      by (simp_all add: checked_execute_def start_new_transaction_def Let_def has_pending_changes_def)
    from execute_all_pending[OF m1(1), of ws] m1 show ?thesis
      by (intro exI[of _ now]) simp
  qed
qed

text \<open>
  C6.  In a session that starts without pending changes and executes any sequence of
  writes, at least one of them with an item, the writes add exactly one row to the
  \<open>commit\<close> table, and committing with a comment leaves the table as it was before the
  session followed by that one row, which carries the comment.
\<close>

theorem one_commit_row_per_session:
  assumes "\<not> has_pending_changes m" and "\<exists>w \<in> set ws. fst (snd w) \<noteq> []"
  shows "\<exists>date m'.
           commit_table (cm_connection (execute_all m ws)) =
             commit_table (cm_connection m) @
               [\<lparr>cr_id = inserted_primary_key (commit_table (cm_connection m)),
                 cr_user = cm_username m, cr_date = date, cr_comment = []\<rparr>]
         \<and> commit_session comment now (execute_all m ws) = Inr m'
         \<and> commit_table (cm_connection m') =
             commit_table (cm_connection m) @
               [\<lparr>cr_id = inserted_primary_key (commit_table (cm_connection m)),
                 cr_user = cm_username m, cr_date = now, cr_comment = comment\<rparr>]"
proof -
  let ?old = "commit_table (cm_connection m)"
  let ?id = "inserted_primary_key ?old"
  let ?m1 = "execute_all m ws"
  from execute_all_first_write[OF assms] obtain date where
    p: "has_pending_changes ?m1"
    and t: "commit_table (cm_connection ?m1) =
              ?old @ [\<lparr>cr_id = ?id, cr_user = cm_username m, cr_date = date, cr_comment = []\<rparr>]"
    and c: "cm_commit_id ?m1 = Some ?id" and u: "cm_username ?m1 = cm_username m"
    by blast
  have old: "map (\<lambda>r. if cr_id r = ?id
                       then r\<lparr>cr_user := cm_username m, cr_date := now, cr_comment := comment\<rparr>
                       else r) ?old = ?old"
  proof (rule map_idI)
    fix r assume "r \<in> set ?old"
    then have "cr_id r \<noteq> ?id" using inserted_primary_key_fresh[of r ?old] by simp
    then show "(if cr_id r = ?id
                then r\<lparr>cr_user := cm_username m, cr_date := now, cr_comment := comment\<rparr>
                else r) = r" by simp
  qed
  obtain m' where m': "commit_session comment now ?m1 = Inr m'"
    "commit_table (cm_connection m') =
       map (\<lambda>r. if cr_id r = ?id
                 then r\<lparr>cr_user := cm_username m, cr_date := now, cr_comment := comment\<rparr>
                 else r) (commit_table (cm_connection ?m1))"
    using p c u by (simp add: commit_session_def Let_def)
  from m'(2) have "commit_table (cm_connection m') =
      ?old @ [\<lparr>cr_id = ?id, cr_user = cm_username m, cr_date = now, cr_comment = comment\<rparr>]"
    unfolding t by (simp add: old)
  with t m'(1) show ?thesis by blast
qed

text \<open>
  C6 on three writes, the second without items, followed by a commit: one \<open>commit\<close> row.
\<close>

theorem one_commit_row_per_session_witness:
  "commit_session ''c'' 9
     (execute_all (new_commit_mapping ''anon'' \<lparr>commit_table = [], data = []\<rparr>)
        [((@), [1::nat], 5), ((@), [], 6), ((@), [2, 3], 7)])
   = Inr \<lparr>cm_username = ''anon'',
          cm_transaction = Some \<lparr>is_active = False, begin_state = \<lparr>commit_table = [], data = []\<rparr>\<rparr>,
          cm_commit_id = Some 1,
          cm_connection = \<lparr>commit_table = [\<lparr>cr_id = 1, cr_user = ''anon'', cr_date = 9, cr_comment = ''c''\<rparr>],
                           data = [2, 3, 1]\<rparr>\<rparr>"
  using one_commit_row_per_session
    [of "new_commit_mapping ''anon'' \<lparr>commit_table = [], data = []\<rparr>"
        "[((@), [1::nat], 5), ((@), [], 6), ((@), [2, 3], 7)]" "''c''" 9]
  by (simp add: new_commit_mapping_def checked_execute_def start_new_transaction_def
      has_pending_changes_def commit_session_def inserted_primary_key_def Let_def)

text \<open>
  C5 on a session with a pending write, and on a session whose write has been rolled
  back.
\<close>

theorem commit_and_rollback_iff_writes_pending_witness:
  "writes_pending [Execute (@) [1::nat] 5, Execute (@) [] 6]
   \<and> \<not> writes_pending [Execute (@) [1::nat] 5, Rollback_session]
   \<and> commit_session ''c'' 9
       (foldl call (new_commit_mapping ''anon'' \<lparr>commit_table = [], data = []\<rparr>)
          [Execute (@) [1::nat] 5, Execute (@) [] 6])
     = Inr \<lparr>cm_username = ''anon'',
          cm_transaction = Some \<lparr>is_active = False, begin_state = \<lparr>commit_table = [], data = []\<rparr>\<rparr>,
          cm_commit_id = Some 1,
          cm_connection = \<lparr>commit_table = [\<lparr>cr_id = 1, cr_user = ''anon'', cr_date = 9, cr_comment = ''c''\<rparr>],
                           data = [1]\<rparr>\<rparr>
   \<and> rollback_session
       (foldl call (new_commit_mapping ''anon'' \<lparr>commit_table = [], data = []\<rparr>)
          [Execute (@) [1::nat] 5, Execute (@) [] 6])
     = Inr \<lparr>cm_username = ''anon'',
          cm_transaction = Some \<lparr>is_active = False, begin_state = \<lparr>commit_table = [], data = []\<rparr>\<rparr>,
          cm_commit_id = Some 1,
          cm_connection = \<lparr>commit_table = [], data = []\<rparr>\<rparr>
   \<and> commit_session ''c'' 9
       (foldl call (new_commit_mapping ''anon'' \<lparr>commit_table = [], data = []\<rparr>)
          [Execute (@) [1::nat] 5, Rollback_session])
     = Inl (SpineDBAPIError Nothing_to_commit)
   \<and> rollback_session
       (foldl call (new_commit_mapping ''anon'' \<lparr>commit_table = [], data = []\<rparr>)
          [Execute (@) [1::nat] 5, Rollback_session])
     = Inl (SpineDBAPIError Nothing_to_rollback)"
  using commit_and_rollback_iff_writes_pending
    [where calls = "[Execute (@) [1::nat] 5, Execute (@) [] 6]" and username = "''anon''"
       and db = "\<lparr>commit_table = [], data = []\<rparr>" and comment = "''c''" and now = 9]
    commit_and_rollback_iff_writes_pending
    [where calls = "[Execute (@) [1::nat] 5, Rollback_session]" and username = "''anon''"
       and db = "\<lparr>commit_table = [], data = []\<rparr>" and comment = "''c''" and now = 9]
  by (simp add: new_commit_mapping_def checked_execute_def start_new_transaction_def
      has_pending_changes_def commit_session_def rollback_session_def inserted_primary_key_def
      writes_pending_def Let_def)

section \<open>Properties of the id allocation\<close>

lemma storage_call_ok:
  "no_fault (Suc n) (am_faults s) \<Longrightarrow>
     storage_call s = (False, s\<lparr>am_faults := drop 1 (am_faults s)\<rparr>)
     \<and> no_fault n (drop 1 (am_faults s))"
  by (cases "am_faults s") (auto simp: storage_call_def no_fault_def)

lemma next_id_with_lock_ok:
  assumes "length (am_NextId s) \<le> 1" and "no_fault (Suc n) (am_faults s)"
  shows "\<exists>next_id. next_id_with_lock now s =
           (Inr next_id, s\<lparr>am_faults := drop 1 (am_faults s), am_NextId := [next_id]\<rparr>)
         \<and> first_id next_id (am_ObjectClass s) =
             (case persisted_counter s of
                Some c \<Rightarrow> c
              | None \<Rightarrow> (if am_ObjectClass s = [] then 1 else Max (set (am_ObjectClass s)) + 1))
         \<and> no_fault n (drop 1 (am_faults s))"
proof -
  from assms(1) consider "am_NextId s = []" | r where "am_NextId s = [r]"
    by (cases "am_NextId s"; cases "tl (am_NextId s)") auto
  then show ?thesis
  proof cases
    case 1
    with storage_call_ok[OF assms(2)] show ?thesis
      by (simp add: next_id_with_lock_def first_id_def persisted_counter_def max_id_of_def Let_def)
  next
    case 2
    with storage_call_ok[OF assms(2)] show ?thesis
      by (auto simp: next_id_with_lock_def first_id_def persisted_counter_def max_id_of_def Let_def
          split: option.splits)
  qed
qed

lemma add_object_classes_ok:
  assumes "length (am_NextId s) \<le> 1" and "no_fault 3 (am_faults s)"
  shows "\<exists>s'. add_object_classes kwargs_list now s =
           (Inr {next_first s ..< next_first s + int (length kwargs_list)}, s')
         \<and> map ni_object_class_id (am_NextId s') = [Some (next_first s + int (length kwargs_list))]
         \<and> am_ObjectClass s' = am_ObjectClass s
         \<and> am_faults s' = drop 3 (am_faults s)"
proof -
  have three: "no_fault (Suc (Suc (Suc 0))) (am_faults s)"
    using assms(2) by (simp add: numeral_3_eq_3)
  from next_id_with_lock_ok[OF assms(1) three, of now] obtain next_id where
    n: "next_id_with_lock now s =
           (Inr next_id, s\<lparr>am_faults := drop 1 (am_faults s), am_NextId := [next_id]\<rparr>)"
    and f: "first_id next_id (am_ObjectClass s) = next_first s"
    and nf: "no_fault (Suc (Suc 0)) (drop 1 (am_faults s))"
    by (auto simp: next_first_def)
  let ?s1 = "s\<lparr>am_faults := drop 1 (am_faults s), am_NextId := [next_id]\<rparr>"
  have two: "no_fault (Suc (Suc 0)) (am_faults ?s1)" using nf by simp
  from storage_call_ok[OF two]
  have c2: "storage_call ?s1 = (False, ?s1\<lparr>am_faults := drop (Suc (Suc 0)) (am_faults s)\<rparr>)"
    and nf1: "no_fault (Suc 0) (drop (Suc (Suc 0)) (am_faults s))" by simp_all
  let ?s2 = "?s1\<lparr>am_faults := drop (Suc (Suc 0)) (am_faults s)\<rparr>"
  have one: "no_fault (Suc 0) (am_faults ?s2)" using nf1 by simp
  from storage_call_ok[OF one]
  have c3: "storage_call ?s2 = (False, ?s2\<lparr>am_faults := drop (Suc (Suc (Suc 0))) (am_faults s)\<rparr>)"
    by simp
  have rng: "set [next_first s..next_first s + int (length kwargs_list) - 1]
           = {next_first s ..< next_first s + int (length kwargs_list)}"
    by auto
  show ?thesis
    using n f c2 c3 rng by (simp add: add_object_classes_def Let_def numeral_3_eq_3)
qed


lemma storage_call_eq:
  "storage_call s = (am_faults s \<noteq> [] \<and> hd (am_faults s), s\<lparr>am_faults := tl (am_faults s)\<rparr>)"
  by (cases "am_faults s") (simp_all add: storage_call_def)

lemma add_object_classes_flush_failure:
  assumes "length (am_NextId s) \<le> 1" and "am_faults s = True # rest"
  shows "add_object_classes kwargs_list now s =
           (Inl (SpineDBAPIError Unable_to_get_next_id), s\<lparr>am_faults := rest\<rparr>)"
proof -
  from assms(1) consider "am_NextId s = []" | r where "am_NextId s = [r]"
    by (cases "am_NextId s"; cases "tl (am_NextId s)") auto
  then have "next_id_with_lock now s =
               (Inl (SpineDBAPIError Unable_to_get_next_id), s\<lparr>am_faults := rest\<rparr>)"
    using assms(2) by cases (simp_all add: next_id_with_lock_def storage_call_def Let_def)
  then show ?thesis by (simp add: add_object_classes_def)
qed

lemma next_id_with_lock_state:
  assumes "length (am_NextId s) \<le> 1" and "next_id_with_lock now s = (r, s1)"
  shows "am_ObjectClass s1 = am_ObjectClass s \<and> am_faults s1 = tl (am_faults s)
       \<and> (case r of
             Inl e \<Rightarrow> am_NextId s1 = am_NextId s
           | Inr next_id \<Rightarrow> first_id next_id (am_ObjectClass s) = next_first s)"
proof -
  from assms(1) consider "am_NextId s = []" | r where "am_NextId s = [r]"
    by (cases "am_NextId s"; cases "tl (am_NextId s)") auto
  then show ?thesis
  proof cases
    case 1
    with assms(2) show ?thesis
      by (auto simp: next_id_with_lock_def storage_call_eq Let_def first_id_def next_first_def
          persisted_counter_def max_id_of_def split: if_splits)
  next
    case 2
    with assms(2) show ?thesis
      by (auto simp: next_id_with_lock_def storage_call_eq Let_def first_id_def next_first_def
          persisted_counter_def max_id_of_def split: if_splits option.splits)
  qed
qed

lemma add_object_classes_result:
  assumes "length (am_NextId s) \<le> 1" and "add_object_classes kwargs_list now s = (r, s')"
  shows "am_ObjectClass s' = am_ObjectClass s
       \<and> (case r of
             Inl e \<Rightarrow> am_NextId s' = am_NextId s
           | Inr A \<Rightarrow> A = {next_first s ..< next_first s + int (length kwargs_list)}
                     \<and> map ni_object_class_id (am_NextId s')
                         = [Some (next_first s + int (length kwargs_list))])"
proof -
  obtain q s1 where l: "next_id_with_lock now s = (q, s1)" by (cases "next_id_with_lock now s")
  note st = next_id_with_lock_state[OF assms(1) l]
  show ?thesis
  proof (cases q)
    case (Inl e)
    with l assms(2) st show ?thesis by (auto simp: add_object_classes_def)
  next
    case (Inr next_id)
    have rng: "set [next_first s..next_first s + int (length kwargs_list) - 1]
           = {next_first s ..< next_first s + int (length kwargs_list)}"
      by auto
    from Inr l assms(2) st rng show ?thesis
      by (auto simp: add_object_classes_def storage_call_eq Let_def split: if_splits)
  qed
qed

lemma next_first_positive:
  assumes "\<forall>i \<in> set (am_ObjectClass s). 0 \<le> i" and "\<forall>c. persisted_counter s = Some c \<longrightarrow> 0 < c"
  shows "0 < next_first s"
proof (cases "persisted_counter s")
  case None
  show ?thesis
  proof (cases "am_ObjectClass s = []")
    case True
    with None show ?thesis by (simp add: next_first_def)
  next
    case False
    then have "Max (set (am_ObjectClass s)) \<in> set (am_ObjectClass s)" by (intro Max_in) auto
    with assms(1) have "0 \<le> Max (set (am_ObjectClass s))" by blast
    with None False show ?thesis by (simp add: next_first_def)
  qed
next
  case (Some c)
  with assms(2) show ?thesis by (simp add: next_first_def)
qed

lemma alloc_inv_step:
  assumes "alloc_inv s B" and "add_object_classes kwargs_list now s = (r, s')"
  shows "case r of
           Inl e \<Rightarrow> alloc_inv s' B
         | Inr A \<Rightarrow> (\<forall>b \<in> B. \<forall>a \<in> A. b < a) \<and> alloc_inv s' (B \<union> A)"
proof -
  from assms(1) have len: "length (am_NextId s) \<le> 1" by (simp add: alloc_inv_def)
  note res = add_object_classes_result[OF len assms(2)]
  from assms(1) have pos: "0 < next_first s"
    by (intro next_first_positive) (simp_all add: alloc_inv_def)
  show ?thesis
  proof (cases r)
    case (Inl e)
    with res have "am_NextId s' = am_NextId s" "am_ObjectClass s' = am_ObjectClass s" by simp_all
    then have pc: "persisted_counter s' = persisted_counter s"
      by (simp add: persisted_counter_def)
    have "next_first s' = next_first s"
      unfolding next_first_def pc \<open>am_ObjectClass s' = am_ObjectClass s\<close> ..
    with pc assms(1) Inl \<open>am_NextId s' = am_NextId s\<close> \<open>am_ObjectClass s' = am_ObjectClass s\<close>
    show ?thesis by (simp add: alloc_inv_def)
  next
    case (Inr A)
    let ?n = "next_first s + int (length kwargs_list)"
    from Inr res have A: "A = {next_first s ..< ?n}"
      and c: "map ni_object_class_id (am_NextId s') = [Some ?n]"
      and oc: "am_ObjectClass s' = am_ObjectClass s" by simp_all
    from c obtain row where row: "am_NextId s' = [row]" "ni_object_class_id row = Some ?n"
      by (cases "am_NextId s'") auto
    from pos have n0: "0 < ?n" by simp
    with row have pc: "persisted_counter s' = Some ?n" by (simp add: persisted_counter_def)
    then have nf: "next_first s' = ?n" by (simp add: next_first_def)
    have "\<forall>b \<in> B. \<forall>a \<in> A. b < a"
      using assms(1) A by (auto simp: alloc_inv_def)
    moreover have "alloc_inv s' (B \<union> A)"
      using assms(1) A row pc nf oc n0 by (auto simp: alloc_inv_def)
    ultimately show ?thesis using Inr by simp
  qed
qed

lemma add_all_increasing:
  assumes "alloc_inv s B"
  shows "(\<forall>A \<in> set (successes (fst (add_all batches s))). \<forall>b \<in> B. \<forall>a \<in> A. b < a)
       \<and> sorted_wrt (\<lambda>A A'. \<forall>a \<in> A. \<forall>a' \<in> A'. a < a') (successes (fst (add_all batches s)))"
  using assms
proof (induction batches arbitrary: s B)
  case Nil
  then show ?case by simp
next
  case (Cons batch batches)
  obtain kwargs_list now where batch: "batch = (kwargs_list, now)" by (cases batch)
  obtain r s1 where r: "add_object_classes kwargs_list now s = (r, s1)"
    by (cases "add_object_classes kwargs_list now s")
  obtain rs s2 where rs: "add_all batches s1 = (rs, s2)" by (cases "add_all batches s1")
  have all: "fst (add_all (batch # batches) s) = r # rs"
    using batch r rs by simp
  note step = alloc_inv_step[OF Cons.prems r]
  show ?case
  proof (cases r)
    case (Inl e)
    with step have "alloc_inv s1 B" by simp
    from Cons.IH[OF this] rs Inl all show ?thesis by simp
  next
    case (Inr A)
    with step have lt: "\<forall>b \<in> B. \<forall>a \<in> A. b < a" and inv: "alloc_inv s1 (B \<union> A)" by simp_all
    from Cons.IH[OF inv] rs have
      ih: "\<forall>A' \<in> set (successes rs). \<forall>b \<in> B \<union> A. \<forall>a \<in> A'. b < a"
      and so: "sorted_wrt (\<lambda>A A'. \<forall>a \<in> A. \<forall>a' \<in> A'. a < a') (successes rs)"
      by simp_all
    from ih lt so Inr all show ?thesis by auto
  qed
qed

text \<open>
  C7.  (1) An allocation that finds at most one row in \<open>next_id\<close>, no persisted counter
  for the table and a store whose calls succeed hands out the ids from the greatest id of
  the table plus one (from 1 for the empty table), one for each item, and leaves the
  counter at the first id plus the number of items.  (2) In a table of non-negative ids
  whose persisted counter, if any, is positive, the successful allocations of any
  sequence of allocations hand out increasing ids: every id of an earlier allocation is
  less than every id of a later one, whatever calls of the store fail in between.
  (3) When the flush raises, the allocation raises \<open>Unable to get next id\<close> after that
  one call of the store, whatever the outcomes of later calls would be, and nothing else
  of the mapping changes.
\<close>

theorem id_allocation:
  "(length (am_NextId s) \<le> 1 \<and> persisted_counter s = None \<and> no_fault 3 (am_faults s) \<longrightarrow>
      (\<exists>s'. add_object_classes kwargs_list now s =
               (Inr {(if am_ObjectClass s = [] then 1 else Max (set (am_ObjectClass s)) + 1) ..<
                     (if am_ObjectClass s = [] then 1 else Max (set (am_ObjectClass s)) + 1)
                       + int (length kwargs_list)}, s')
          \<and> map ni_object_class_id (am_NextId s') =
              [Some ((if am_ObjectClass s = [] then 1 else Max (set (am_ObjectClass s)) + 1)
                       + int (length kwargs_list))]))
   \<and> (length (am_NextId s) \<le> 1 \<and> (\<forall>c. persisted_counter s = Some c \<longrightarrow> 0 < c)
        \<and> (\<forall>i \<in> set (am_ObjectClass s). 0 \<le> i) \<longrightarrow>
      sorted_wrt (\<lambda>A A'. \<forall>a \<in> A. \<forall>a' \<in> A'. a < a') (successes (fst (add_all batches s))))
   \<and> (length (am_NextId s) \<le> 1 \<and> am_faults s = True # rest \<longrightarrow>
      add_object_classes kwargs_list now s =
        (Inl (SpineDBAPIError Unable_to_get_next_id), s\<lparr>am_faults := rest\<rparr>))"
proof (intro conjI impI)
  assume a: "length (am_NextId s) \<le> 1 \<and> persisted_counter s = None \<and> no_fault 3 (am_faults s)"
  then have nf: "next_first s = (if am_ObjectClass s = [] then 1 else Max (set (am_ObjectClass s)) + 1)"
    by (simp add: next_first_def)
  from a have l: "length (am_NextId s) \<le> 1" and f: "no_fault 3 (am_faults s)" by simp_all
  from add_object_classes_ok[OF l f, of kwargs_list now] obtain s' where
    "add_object_classes kwargs_list now s =
               (Inr {next_first s ..< next_first s + int (length kwargs_list)}, s')"
    "map ni_object_class_id (am_NextId s') = [Some (next_first s + int (length kwargs_list))]"
    by auto
  then have "\<exists>s'. add_object_classes kwargs_list now s =
               (Inr {next_first s ..< next_first s + int (length kwargs_list)}, s')
          \<and> map ni_object_class_id (am_NextId s') =
              [Some (next_first s + int (length kwargs_list))]"
    by (intro exI[of _ s'] conjI)
  then show "\<exists>s'. add_object_classes kwargs_list now s =
               (Inr {(if am_ObjectClass s = [] then 1 else Max (set (am_ObjectClass s)) + 1) ..<
                     (if am_ObjectClass s = [] then 1 else Max (set (am_ObjectClass s)) + 1)
                       + int (length kwargs_list)}, s')
          \<and> map ni_object_class_id (am_NextId s') =
              [Some ((if am_ObjectClass s = [] then 1 else Max (set (am_ObjectClass s)) + 1)
                       + int (length kwargs_list))]"
    unfolding nf .
next
  assume "length (am_NextId s) \<le> 1 \<and> (\<forall>c. persisted_counter s = Some c \<longrightarrow> 0 < c)
        \<and> (\<forall>i \<in> set (am_ObjectClass s). 0 \<le> i)"
  then have "alloc_inv s {}" by (simp add: alloc_inv_def)
  from add_all_increasing[OF this, of batches]
  show "sorted_wrt (\<lambda>A A'. \<forall>a \<in> A. \<forall>a' \<in> A'. a < a') (successes (fst (add_all batches s)))"
    by simp
next
  assume "length (am_NextId s) \<le> 1 \<and> am_faults s = True # rest"
  then show "add_object_classes kwargs_list now s =
        (Inl (SpineDBAPIError Unable_to_get_next_id), s\<lparr>am_faults := rest\<rparr>)"
    by (simp add: add_object_classes_flush_failure)
qed

text \<open>
  C7 on the example mapping: a first allocation of two ids, three allocations in a row,
  and an allocation whose flush fails while the next call of the store would succeed.
\<close>

theorem id_allocation_witness:
  "fst (add_object_classes [''a'', ''b''] 1 allocation_example) = Inr {6, 7}
   \<and> map ni_object_class_id (am_NextId (snd (add_object_classes [''a'', ''b''] 1 allocation_example)))
       = [Some 8]
   \<and> successes (fst (add_all [([''a'', ''b''], 1), ([''c''], 2), ([''d'', ''e''], 3)] allocation_example))
       = [{6, 7}, {8}, {9, 10}]
   \<and> add_object_classes [''a''] 1 (allocation_example\<lparr>am_faults := [True, False]\<rparr>)
       = (Inl (SpineDBAPIError Unable_to_get_next_id), allocation_example\<lparr>am_faults := [False]\<rparr>)"
proof -
  have one: "fst (add_object_classes [''a'', ''b''] 1 allocation_example) = Inr {6, 7}"
    "map ni_object_class_id (am_NextId (snd (add_object_classes [''a'', ''b''] 1 allocation_example)))
       = [Some 8]"
    by code_simp+
  have many: "successes (fst (add_all [([''a'', ''b''], 1), ([''c''], 2), ([''d'', ''e''], 3)] allocation_example))
       = [{6, 7}, {8}, {9, 10}]"
    by code_simp
  have pre: "length (am_NextId allocation_example) \<le> 1" "persisted_counter allocation_example = None"
    "no_fault 3 (am_faults allocation_example)"
    "\<forall>i \<in> set (am_ObjectClass allocation_example). 0 \<le> i"
    "am_faults (allocation_example\<lparr>am_faults := [True, False]\<rparr>) = True # [False]"
    by (simp_all add: allocation_example_def persisted_counter_def no_fault_def)
  note id_allocation[of allocation_example "[''a'', ''b'']" 1
      "[([''a'', ''b''], 1), ([''c''], 2), ([''d'', ''e''], 3)]" "[]"]
    id_allocation[of "allocation_example\<lparr>am_faults := [True, False]\<rparr>" "[''a'']" 1 "[]" "[False]"]
  with one many pre show ?thesis by simp
qed

section \<open>Properties of the staged updates\<close>



lemma length_sql_updates:
  "length (fold (sql_update primary_key keys) items rows) = length rows"
  by (induction items arbitrary: rows) (simp_all add: sql_update_def)










end
